theory Spec2Isabelle
  imports Complex_Main "HOL-Library.Word" "HOL-Library.Sublist"
begin

section \<open>JavaScript values\<close>

text \<open>
  A JavaScript string is a sequence of UTF-16 code units; \<open>length\<close> is what
  \<^verbatim>\<open>String.prototype.length\<close> returns. String literals of the source are ASCII and
  are written \<open>js ''...''\<close>.
\<close>

type_synonym jsstring = "16 word list"

definition js :: "string \<Rightarrow> jsstring" where
  "js s = map (\<lambda>c. of_char c) s"

text \<open>
  The untyped tree a schema is applied to: what \<^verbatim>\<open>JSON.parse\<close> produces, together
  with \<^verbatim>\<open>undefined\<close>, which is also the value of every property an object does not
  have. Numbers are the finite ones, as rationals. An object lists its own properties
  in insertion order, each key once; a property is read by its first entry.
\<close>

datatype json =
    JUndefined
  | JNull
  | JBool bool
  | JNum rat
  | JStr jsstring
  | JArr "json list"
  | JObj "(jsstring \<times> json) list"

definition has_key :: "(jsstring \<times> json) list \<Rightarrow> jsstring \<Rightarrow> bool" where
  "has_key kv k = (k \<in> set (map fst kv))"

definition lookup :: "(jsstring \<times> json) list \<Rightarrow> jsstring \<Rightarrow> json" where
  "lookup kv k = (case map_of kv k of None \<Rightarrow> JUndefined | Some v \<Rightarrow> v)"

text \<open>
  \<^verbatim>\<open>Number.isInteger\<close> and \<^verbatim>\<open>Number.isSafeInteger\<close> on a finite number: a safe
  integer is an integer of absolute value at most \<open>2 ^ 53 - 1\<close>.
\<close>

definition is_integer :: "rat \<Rightarrow> bool" where
  "is_integer q = (rat_of_int \<lfloor>q\<rfloor> = q)"

definition is_safe_integer :: "rat \<Rightarrow> bool" where
  "is_safe_integer q = (is_integer q \<and> \<bar>q\<bar> \<le> 9007199254740991)"

text \<open>
  The number of code points of a string, as the string iterator counts them: a high
  surrogate followed by a low surrogate is one code point, any other code unit is one.
\<close>

fun code_points :: "jsstring \<Rightarrow> nat" where
  "code_points [] = 0"
| "code_points [c] = 1"
| "code_points (c # d # cs) =
     (if 0xD800 \<le> c \<and> c \<le> 0xDBFF \<and> 0xDC00 \<le> d \<and> d \<le> 0xDFFF
      then Suc (code_points cs)
      else Suc (code_points (d # cs)))"

section \<open>Zod schemas and their validation\<close>

text \<open>
  The schema files of the repository build schema values with the combinators of the Zod
  library and hand them to the library's \<^verbatim>\<open>parse\<close>. The schema values are embedded as
  data, one constructor for each combinator the repository uses; \<^verbatim>\<open>.describe(...)\<close>
  only attaches documentation and is left out. \<^verbatim>\<open>z.lazy(() => S)\<close> names the schema
  its thunk returns.
\<close>

datatype string_check = MinLen nat | MaxLen nat | UrlCheck

datatype number_check = IntCheck | PositiveCheck

datatype lazy_ref = UserRef | MessageRef

datatype schema =
    ZString "string_check list"
  | ZNumber "number_check list"
  | ZBoolean
  | ZLiteral json
  | ZEnum "jsstring list"
  | ZArray schema
  | ZObject "(jsstring \<times> schema) list"
  | ZRecord schema schema
  | ZOptional schema
  | ZDefault schema json
  | ZUnion "schema list"
  | ZLazy lazy_ref

text \<open>
  A failed validation throws a \<^verbatim>\<open>ZodError\<close> that lists the issues found; the model
  keeps that validation failed.
\<close>

datatype error = ZodError

text \<open>
  The checks of a string schema. \<^verbatim>\<open>.min(n)\<close> and \<^verbatim>\<open>.max(n)\<close> compare the number
  of code points of the string, so a surrogate pair counts once; older releases of the
  library compare \<^verbatim>\<open>length\<close>, the number of UTF-16 code units, and the two agree on
  every string without a surrogate pair. \<^verbatim>\<open>.url()\<close> asks the platform's URL parser,
  which is a parameter of the model.
\<close>

fun string_check_ok :: "(jsstring \<Rightarrow> bool) \<Rightarrow> string_check \<Rightarrow> jsstring \<Rightarrow> bool" where
  "string_check_ok is_url (MinLen n) s = (n \<le> code_points s)"
| "string_check_ok is_url (MaxLen n) s = (code_points s \<le> n)"
| "string_check_ok is_url UrlCheck s = is_url s"

text \<open>
  The checks of a number schema. \<^verbatim>\<open>.int()\<close> accepts the safe integers (version 4 of
  the library; version 3 accepts every integer).
\<close>

fun number_check_ok :: "number_check \<Rightarrow> rat \<Rightarrow> bool" where
  "number_check_ok IntCheck q = is_safe_integer q"
| "number_check_ok PositiveCheck q = (0 < q)"

text \<open>The values of the elements when every element has validated, a failure otherwise.\<close>

fun collect :: "(error + 'a) list \<Rightarrow> error + 'a list" where
  "collect [] = Inr []"
| "collect (Inl e # rs) = Inl e"
| "collect (Inr v # rs) = (case collect rs of Inl e \<Rightarrow> Inl e | Inr vs \<Rightarrow> Inr (v # vs))"

text \<open>
  The output object of \<^verbatim>\<open>z.object\<close>: the declared keys in the order of the schema,
  a key being set when its value is not \<^verbatim>\<open>undefined\<close> or the input has the key.
  Keys the schema does not declare are never copied.
\<close>

definition object_output ::
  "(jsstring \<times> json) list \<Rightarrow> jsstring list \<Rightarrow> json list \<Rightarrow> (jsstring \<times> json) list" where
  "object_output kv ks vs =
     filter (\<lambda>p. snd p \<noteq> JUndefined \<or> has_key kv (fst p)) (zip ks vs)"

text \<open>\<^verbatim>\<open>z.union\<close> returns the result of the first option that validates.\<close>

fun first_ok :: "(error + 'a) list \<Rightarrow> error + 'a" where
  "first_ok [] = Inl ZodError"
| "first_ok (Inr v # rs) = Inr v"
| "first_ok (Inl e # rs) = first_ok rs"

section \<open>The schemas of the repository\<close>

subsection \<open>Webhook payloads\<close>

definition UserSchema :: schema where
  "UserSchema = ZObject
     [(js ''id'', ZNumber [IntCheck]),
      (js ''is_bot'', ZBoolean),
      (js ''first_name'', ZString []),
      (js ''last_name'', ZOptional (ZString [])),
      (js ''username'', ZOptional (ZString [])),
      (js ''language_code'', ZOptional (ZString [])),
      (js ''is_premium'', ZOptional ZBoolean),
      (js ''added_to_attachment_menu'', ZOptional ZBoolean),
      (js ''can_join_groups'', ZOptional ZBoolean),
      (js ''can_read_all_group_messages'', ZOptional ZBoolean),
      (js ''supports_inline_queries'', ZOptional ZBoolean)]"

definition chat_types :: "jsstring list" where
  "chat_types = [js ''private'', js ''group'', js ''supergroup'', js ''channel'']"

definition ChatSchema :: schema where
  "ChatSchema = ZObject
     [(js ''id'', ZNumber [IntCheck]),
      (js ''type'', ZEnum chat_types),
      (js ''title'', ZOptional (ZString [])),
      (js ''username'', ZOptional (ZString [])),
      (js ''first_name'', ZOptional (ZString [])),
      (js ''last_name'', ZOptional (ZString [])),
      (js ''is_forum'', ZOptional ZBoolean)]"

definition PhotoSizeSchema :: schema where
  "PhotoSizeSchema = ZObject
     [(js ''file_id'', ZString []),
      (js ''file_unique_id'', ZString []),
      (js ''width'', ZNumber [IntCheck]),
      (js ''height'', ZNumber [IntCheck]),
      (js ''file_size'', ZOptional (ZNumber [IntCheck]))]"

definition LocationSchema :: schema where
  "LocationSchema = ZObject
     [(js ''longitude'', ZNumber []),
      (js ''latitude'', ZNumber []),
      (js ''horizontal_accuracy'', ZOptional (ZNumber [])),
      (js ''live_period'', ZOptional (ZNumber [IntCheck])),
      (js ''heading'', ZOptional (ZNumber [IntCheck])),
      (js ''proximity_alert_radius'', ZOptional (ZNumber [IntCheck]))]"

definition entity_types :: "jsstring list" where
  "entity_types =
     [js ''mention'', js ''hashtag'', js ''cashtag'', js ''bot_command'', js ''url'',
      js ''email'', js ''phone_number'', js ''bold'', js ''italic'', js ''underline'',
      js ''strikethrough'', js ''spoiler'', js ''code'', js ''pre'', js ''text_link'',
      js ''text_mention'', js ''custom_emoji'']"

definition MessageEntitySchema :: schema where
  "MessageEntitySchema = ZObject
     [(js ''type'', ZEnum entity_types),
      (js ''offset'', ZNumber [IntCheck]),
      (js ''length'', ZNumber [IntCheck]),
      (js ''url'', ZOptional (ZString [])),
      (js ''user'', ZOptional (ZLazy UserRef)),
      (js ''language'', ZOptional (ZString [])),
      (js ''custom_emoji_id'', ZOptional (ZString []))]"

subsection \<open>Keyboards\<close>

definition InlineKeyboardButtonSchema :: schema where
  "InlineKeyboardButtonSchema = ZObject
     [(js ''text'', ZString []),
      (js ''url'', ZOptional (ZString [])),
      (js ''callback_data'', ZOptional (ZString [MaxLen 64])),
      (js ''web_app'', ZOptional (ZObject [(js ''url'', ZString [UrlCheck])])),
      (js ''login_url'', ZOptional (ZObject
         [(js ''url'', ZString [UrlCheck]),
          (js ''forward_text'', ZOptional (ZString [])),
          (js ''bot_username'', ZOptional (ZString [])),
          (js ''request_write_access'', ZOptional ZBoolean)])),
      (js ''switch_inline_query'', ZOptional (ZString [])),
      (js ''switch_inline_query_current_chat'', ZOptional (ZString [])),
      (js ''switch_inline_query_chosen_chat'', ZOptional (ZObject
         [(js ''query'', ZOptional (ZString [])),
          (js ''allow_user_chats'', ZOptional ZBoolean),
          (js ''allow_bot_chats'', ZOptional ZBoolean),
          (js ''allow_group_chats'', ZOptional ZBoolean),
          (js ''allow_channel_chats'', ZOptional ZBoolean)])),
      (js ''callback_game'', ZOptional (ZObject [])),
      (js ''pay'', ZOptional ZBoolean)]"

definition InlineKeyboardMarkupSchema :: schema where
  "InlineKeyboardMarkupSchema = ZObject
     [(js ''inline_keyboard'', ZArray (ZArray InlineKeyboardButtonSchema))]"

definition KeyboardButtonSchema :: schema where
  "KeyboardButtonSchema = ZObject
     [(js ''text'', ZString []),
      (js ''request_users'', ZOptional (ZObject
         [(js ''request_id'', ZNumber [IntCheck]),
          (js ''user_is_bot'', ZOptional ZBoolean),
          (js ''user_is_premium'', ZOptional ZBoolean),
          (js ''max_quantity'', ZOptional (ZNumber [IntCheck])),
          (js ''request_name'', ZOptional ZBoolean),
          (js ''request_username'', ZOptional ZBoolean),
          (js ''request_photo'', ZOptional ZBoolean)])),
      (js ''request_chat'', ZOptional (ZObject
         [(js ''request_id'', ZNumber [IntCheck]),
          (js ''chat_is_channel'', ZBoolean),
          (js ''chat_is_forum'', ZOptional ZBoolean),
          (js ''chat_has_username'', ZOptional ZBoolean),
          (js ''chat_is_created'', ZOptional ZBoolean),
          (js ''user_administrator_rights'', ZOptional (ZRecord (ZString []) ZBoolean)),
          (js ''bot_administrator_rights'', ZOptional (ZRecord (ZString []) ZBoolean)),
          (js ''bot_is_member'', ZOptional ZBoolean),
          (js ''request_title'', ZOptional ZBoolean),
          (js ''request_username'', ZOptional ZBoolean),
          (js ''request_photo'', ZOptional ZBoolean)])),
      (js ''request_contact'', ZOptional ZBoolean),
      (js ''request_location'', ZOptional ZBoolean),
      (js ''request_poll'', ZOptional (ZObject
         [(js ''type'', ZOptional (ZEnum [js ''quiz'', js ''regular'']))])),
      (js ''web_app'', ZOptional (ZObject [(js ''url'', ZString [UrlCheck])]))]"

definition ReplyKeyboardMarkupSchema :: schema where
  "ReplyKeyboardMarkupSchema = ZObject
     [(js ''keyboard'', ZArray (ZArray KeyboardButtonSchema)),
      (js ''is_persistent'', ZOptional ZBoolean),
      (js ''resize_keyboard'', ZOptional ZBoolean),
      (js ''one_time_keyboard'', ZOptional ZBoolean),
      (js ''input_field_placeholder'', ZOptional (ZString [MaxLen 64])),
      (js ''selective'', ZOptional ZBoolean)]"

definition ReplyKeyboardRemoveSchema :: schema where
  "ReplyKeyboardRemoveSchema = ZObject
     [(js ''remove_keyboard'', ZLiteral (JBool True)),
      (js ''selective'', ZOptional ZBoolean)]"

definition ForceReplySchema :: schema where
  "ForceReplySchema = ZObject
     [(js ''force_reply'', ZLiteral (JBool True)),
      (js ''input_field_placeholder'', ZOptional (ZString [MaxLen 64])),
      (js ''selective'', ZOptional ZBoolean)]"

definition ReplyMarkupSchema :: schema where
  "ReplyMarkupSchema = ZUnion
     [InlineKeyboardMarkupSchema,
      ReplyKeyboardMarkupSchema,
      ReplyKeyboardRemoveSchema,
      ForceReplySchema]"

subsection \<open>Messages and updates\<close>

definition MessageSchema :: schema where
  "MessageSchema = ZObject
     [(js ''message_id'', ZNumber [IntCheck]),
      (js ''message_thread_id'', ZOptional (ZNumber [IntCheck])),
      (js ''from'', ZOptional UserSchema),
      (js ''sender_chat'', ZOptional ChatSchema),
      (js ''date'', ZNumber [IntCheck]),
      (js ''chat'', ChatSchema),
      (js ''forward_from'', ZOptional UserSchema),
      (js ''forward_from_chat'', ZOptional ChatSchema),
      (js ''forward_from_message_id'', ZOptional (ZNumber [IntCheck])),
      (js ''forward_signature'', ZOptional (ZString [])),
      (js ''forward_sender_name'', ZOptional (ZString [])),
      (js ''forward_date'', ZOptional (ZNumber [IntCheck])),
      (js ''is_topic_message'', ZOptional ZBoolean),
      (js ''is_automatic_forward'', ZOptional ZBoolean),
      (js ''reply_to_message'', ZOptional (ZLazy MessageRef)),
      (js ''via_bot'', ZOptional UserSchema),
      (js ''edit_date'', ZOptional (ZNumber [IntCheck])),
      (js ''has_protected_content'', ZOptional ZBoolean),
      (js ''media_group_id'', ZOptional (ZString [])),
      (js ''author_signature'', ZOptional (ZString [])),
      (js ''text'', ZOptional (ZString [])),
      (js ''entities'', ZOptional (ZArray MessageEntitySchema)),
      (js ''caption'', ZOptional (ZString [])),
      (js ''caption_entities'', ZOptional (ZArray MessageEntitySchema)),
      (js ''photo'', ZOptional (ZArray PhotoSizeSchema)),
      (js ''location'', ZOptional LocationSchema),
      (js ''reply_markup'', ZOptional InlineKeyboardMarkupSchema)]"

definition CallbackQuerySchema :: schema where
  "CallbackQuerySchema = ZObject
     [(js ''id'', ZString []),
      (js ''from'', UserSchema),
      (js ''message'', ZOptional MessageSchema),
      (js ''inline_message_id'', ZOptional (ZString [])),
      (js ''chat_instance'', ZString []),
      (js ''data'', ZOptional (ZString [])),
      (js ''game_short_name'', ZOptional (ZString []))]"

definition UpdateSchema :: schema where
  "UpdateSchema = ZObject
     [(js ''update_id'', ZNumber [IntCheck]),
      (js ''message'', ZOptional MessageSchema),
      (js ''edited_message'', ZOptional MessageSchema),
      (js ''channel_post'', ZOptional MessageSchema),
      (js ''edited_channel_post'', ZOptional MessageSchema),
      (js ''callback_query'', ZOptional CallbackQuerySchema)]"

subsection \<open>Client configuration\<close>

definition TelegramConfigSchema :: schema where
  "TelegramConfigSchema = ZObject
     [(js ''botToken'', ZString [MinLen 1]),
      (js ''baseUrl'', ZDefault (ZString [UrlCheck]) (JStr (js ''https://api.telegram.org''))),
      (js ''timeout'', ZDefault (ZNumber [IntCheck, PositiveCheck]) (JNum 30000))]"

section \<open>Validation\<close>

text \<open>The schema a \<^verbatim>\<open>z.lazy\<close> thunk of the repository returns.\<close>

fun resolve :: "lazy_ref \<Rightarrow> schema" where
  "resolve UserRef = UserSchema"
| "resolve MessageRef = MessageSchema"

text \<open>
  The two schemas behind a thunk are objects, and an object hands only its property
  values on. The measure below counts the wrappers that hand their whole input on.
\<close>

fun wrappers :: "schema \<Rightarrow> nat" where
  "wrappers (ZOptional s) = Suc (wrappers s)"
| "wrappers (ZDefault s d) = Suc (wrappers s)"
| "wrappers (ZUnion ss) = Suc (sum_list (map wrappers ss))"
| "wrappers (ZLazy r) = Suc 0"
| "wrappers _ = 0"

lemma wrappers_resolve: "wrappers (resolve r) = 0"
  by (cases r) (simp_all add: UserSchema_def MessageSchema_def)

lemma wrappers_member: "s \<in> set ss \<Longrightarrow> wrappers s < Suc (sum_list (map wrappers ss))"
  by (induction ss) auto

lemma size_element: "x \<in> set xs \<Longrightarrow> size x < size (JArr xs)"
  by (induction xs) auto

lemma size_property: "(k, v) \<in> set kv \<Longrightarrow> size v < size (JObj kv)"
  by (induction kv) auto

lemma size_lookup: "size (lookup kv k) < size (JObj kv)"
proof (cases "map_of kv k")
  case None
  then show ?thesis by (simp add: lookup_def)
next
  case (Some v)
  then have "(k, v) \<in> set kv" by (rule map_of_SomeD)
  then show ?thesis using Some size_property by (simp add: lookup_def)
qed

text \<open>
  \<^verbatim>\<open>schema.parse(value)\<close>: the typed value, or the failure. A string, number,
  boolean, literal or enum schema returns its input when the input has the kind and
  passes the checks. An array validates every element; an object validates, for every
  declared key, the value the input has there (\<^verbatim>\<open>undefined\<close> when it has none) and
  builds the output from the declared keys alone; a record validates every key and
  value of the input. \<^verbatim>\<open>.optional()\<close> accepts \<^verbatim>\<open>undefined\<close>, \<^verbatim>\<open>.default(d)\<close>
  replaces \<^verbatim>\<open>undefined\<close> by \<^verbatim>\<open>d\<close>, a union tries its options in order, and a lazy
  schema validates with the schema of its thunk. \<open>U\<close> is the URL test of the platform.
\<close>

function parse :: "(jsstring \<Rightarrow> bool) \<Rightarrow> schema \<Rightarrow> json \<Rightarrow> error + json" where
  "parse U (ZString cs) j =
     (case j of
        JStr s \<Rightarrow> if list_all (\<lambda>c. string_check_ok U c s) cs then Inr j else Inl ZodError
      | _ \<Rightarrow> Inl ZodError)"
| "parse U (ZNumber cs) j =
     (case j of
        JNum q \<Rightarrow> if list_all (\<lambda>c. number_check_ok c q) cs then Inr j else Inl ZodError
      | _ \<Rightarrow> Inl ZodError)"
| "parse U ZBoolean j = (case j of JBool b \<Rightarrow> Inr j | _ \<Rightarrow> Inl ZodError)"
| "parse U (ZLiteral v) j = (if j = v then Inr j else Inl ZodError)"
| "parse U (ZEnum vs) j =
     (case j of
        JStr s \<Rightarrow> if s \<in> set vs then Inr j else Inl ZodError
      | _ \<Rightarrow> Inl ZodError)"
| "parse U (ZArray s) j =
     (case j of
        JArr xs \<Rightarrow>
          (case collect (map (\<lambda>x. parse U s x) xs) of
             Inl e \<Rightarrow> Inl e
           | Inr vs \<Rightarrow> Inr (JArr vs))
      | _ \<Rightarrow> Inl ZodError)"
| "parse U (ZObject fs) j =
     (case j of
        JObj kv \<Rightarrow>
          (case collect (map (\<lambda>f. parse U (snd f) (lookup kv (fst f))) fs) of
             Inl e \<Rightarrow> Inl e
           | Inr vs \<Rightarrow> Inr (JObj (object_output kv (map fst fs) vs)))
      | _ \<Rightarrow> Inl ZodError)"
| "parse U (ZRecord ks vs) j =
     (case j of
        JObj kv \<Rightarrow>
          (case collect (map (\<lambda>k. parse U ks (JStr k)) (remdups (map fst kv))) of
             Inl e \<Rightarrow> Inl e
           | Inr ks' \<Rightarrow>
               (case collect (map (\<lambda>k. parse U vs (lookup kv k)) (remdups (map fst kv))) of
                  Inl e \<Rightarrow> Inl e
                | Inr vs' \<Rightarrow> Inr (JObj (zip (remdups (map fst kv)) vs'))))
      | _ \<Rightarrow> Inl ZodError)"
| "parse U (ZOptional s) j = (if j = JUndefined then Inr JUndefined else parse U s j)"
| "parse U (ZDefault s d) j = (if j = JUndefined then Inr d else parse U s j)"
| "parse U (ZUnion ss) j = first_ok (map (\<lambda>s. parse U s j) ss)"
| "parse U (ZLazy r) j = parse U (resolve r) j"
  by pat_completeness auto
termination
proof (relation "measures [\<lambda>(U, s, j). size j, \<lambda>(U, s, j). wrappers s]", goal_cases)
  case 1
  then show ?case by simp
next
  case (2 U s j xs x)
  then show ?case using size_element by simp
next
  case (3 U fs j kv f)
  then show ?case using size_lookup by simp
next
  case (4 U ks vs j kv k)
  then show ?case by simp
next
  case (5 U ks vs j kv ks' k)
  then show ?case using size_lookup by simp
next
  case (6 U s j)
  then show ?case by simp
next
  case (7 U s d j)
  then show ?case by simp
next
  case (8 U ss j s)
  then show ?case using wrappers_member by simp
next
  case (9 U r j)
  then show ?case by (simp add: wrappers_resolve)
qed


section \<open>The client\<close>

subsection \<open>Configuration\<close>

record TelegramConfig =
  botToken :: jsstring
  baseUrl :: jsstring
  timeout :: rat

text \<open>
  The constructor: \<^verbatim>\<open>this.config = TelegramConfigSchema.parse(config)\<close>. The parsed
  object has the three declared properties; the record holds them typed.
\<close>

definition TelegramBot_new :: "(jsstring \<Rightarrow> bool) \<Rightarrow> json \<Rightarrow> error + TelegramConfig" where
  "TelegramBot_new U config =
     (case parse U TelegramConfigSchema config of
        Inl e \<Rightarrow> Inl e
      | Inr c \<Rightarrow>
          (case c of
             JObj kv \<Rightarrow>
               (case (lookup kv (js ''botToken''), lookup kv (js ''baseUrl''),
                      lookup kv (js ''timeout'')) of
                  (JStr t, JStr b, JNum n) \<Rightarrow>
                    Inr \<lparr>botToken = t, baseUrl = b, timeout = n\<rparr>
                | _ \<Rightarrow> Inl ZodError)
           | _ \<Rightarrow> Inl ZodError))"

definition updateBotToken :: "TelegramConfig \<Rightarrow> jsstring \<Rightarrow> TelegramConfig" where
  "updateBotToken c newBotToken = c\<lparr>botToken := newBotToken\<rparr>"

text \<open>
  \<^verbatim>\<open>String.prototype.slice(start, end)\<close>: a negative index counts from the end of the
  string, both indices are clamped to the string, and \<^verbatim>\<open>end\<close> defaults to the length.
\<close>

definition slice_index :: "nat \<Rightarrow> int \<Rightarrow> nat" where
  "slice_index len i = (if i < 0 then nat (max (int len + i) 0) else min (nat i) len)"

definition slice :: "jsstring \<Rightarrow> int \<Rightarrow> int option \<Rightarrow> jsstring" where
  "slice s start stop =
     (let from = slice_index (length s) start;
          to = (case stop of None \<Rightarrow> length s | Some e \<Rightarrow> slice_index (length s) e)
      in take (to - from) (drop from s))"

definition getBotTokenMasked :: "TelegramConfig \<Rightarrow> jsstring" where
  "getBotTokenMasked c =
     (let token = botToken c
      in if length token < 10 then js ''***''
         else slice token 0 (Some 3) @ js ''...'' @ slice token (- 3) None)"

definition getApiUrl :: "TelegramConfig \<Rightarrow> jsstring \<Rightarrow> jsstring" where
  "getApiUrl c method = baseUrl c @ js ''/bot'' @ botToken c @ js ''/'' @ method"

subsection \<open>Requests\<close>

text \<open>
  A parameter value is a \<^verbatim>\<open>Blob\<close>, a \<^verbatim>\<open>File\<close> (a \<^verbatim>\<open>Blob\<close> as well) or any other
  value. The parameter types extend \<^verbatim>\<open>Record<string, unknown>\<close>, so a parameter set
  is any list of named values, in the order \<^verbatim>\<open>Object.entries\<close> yields them.
\<close>

datatype param = Blob nat | File nat | Val json

type_synonym params = "(jsstring \<times> param) list"

definition param_of :: "params \<Rightarrow> jsstring \<Rightarrow> param" where
  "param_of ps k = (case map_of ps k of None \<Rightarrow> Val JUndefined | Some v \<Rightarrow> v)"

text \<open>\<^verbatim>\<open>value instanceof Blob || value instanceof File\<close>\<close>

fun is_file :: "param \<Rightarrow> bool" where
  "is_file (Blob b) = True"
| "is_file (File f) = True"
| "is_file (Val v) = False"

text \<open>
  What is appended to the form for one value: the file itself, the text
  \<^verbatim>\<open>JSON.stringify(value)\<close> or the text \<^verbatim>\<open>String(value)\<close>. The two texts are kept
  symbolic.
\<close>

datatype form_value = FormFile param | FormJSON json | FormString json

fun form_value_of :: "param \<Rightarrow> form_value option" where
  "form_value_of (Val JUndefined) = None"
| "form_value_of (Val JNull) = None"
| "form_value_of (Blob b) = Some (FormFile (Blob b))"
| "form_value_of (File f) = Some (FormFile (File f))"
| "form_value_of (Val (JArr xs)) = Some (FormJSON (JArr xs))"
| "form_value_of (Val (JObj kv)) = Some (FormJSON (JObj kv))"
| "form_value_of (Val v) = Some (FormString v)"

fun form_entries :: "params \<Rightarrow> (jsstring \<times> form_value) list" where
  "form_entries [] = []"
| "form_entries ((key, v) # ps) =
     (case form_value_of v of
        None \<Rightarrow> form_entries ps
      | Some e \<Rightarrow> (key, e) # form_entries ps)"

text \<open>
  The body of the request: a \<^verbatim>\<open>FormData\<close> with its entries, or the text
  \<^verbatim>\<open>JSON.stringify(params || {})\<close>, kept symbolic as the parameter set it serializes.
\<close>

datatype body = FormData "(jsstring \<times> form_value) list" | JsonBody params

record http_request =
  url :: jsstring
  http_method :: jsstring
  headers :: "(jsstring \<times> jsstring) list"
  body :: body

definition build_request :: "TelegramConfig \<Rightarrow> jsstring \<Rightarrow> params option \<Rightarrow> bool \<Rightarrow> http_request" where
  "build_request c method ps isMultipart =
     (case (isMultipart, ps) of
        (True, Some p) \<Rightarrow>
          \<lparr>url = getApiUrl c method, http_method = js ''POST'', headers = [],
           body = FormData (form_entries p)\<rparr>
      | _ \<Rightarrow>
          \<lparr>url = getApiUrl c method, http_method = js ''POST'',
           headers = [(js ''Content-Type'', js ''application/json'')],
           body = JsonBody (case ps of None \<Rightarrow> [] | Some p \<Rightarrow> p)\<rparr>)"

text \<open>
  What \<^verbatim>\<open>fetch\<close> and \<^verbatim>\<open>response.json()\<close> come to: the parsed body, or a thrown value,
  which is an \<^verbatim>\<open>Error\<close> with its \<^verbatim>\<open>name\<close> or something else.
\<close>

datatype thrown = ErrorNamed jsstring | NotAnError

datatype fetch_outcome = Responded json | Rejected thrown

datatype client_error =
    TelegramAPIError json json
  | RequestTimeout rat
  | Rethrown jsstring
  | UnknownError

text \<open>JavaScript truthiness, and reading a property of a value.\<close>

fun truthy :: "json \<Rightarrow> bool" where
  "truthy JUndefined = False"
| "truthy JNull = False"
| "truthy (JBool b) = b"
| "truthy (JNum q) = (q \<noteq> 0)"
| "truthy (JStr s) = (s \<noteq> [])"
| "truthy (JArr xs) = True"
| "truthy (JObj kv) = True"

fun property :: "json \<Rightarrow> jsstring \<Rightarrow> json" where
  "property (JObj kv) k = lookup kv k"
| "property v k = JUndefined"

text \<open>
  The envelope: \<^verbatim>\<open>if (!data.ok) throw new TelegramAPIError(error.error_code,
  error.description)\<close>, else \<^verbatim>\<open>return data.result\<close>. Reading a property of
  \<^verbatim>\<open>null\<close> or \<^verbatim>\<open>undefined\<close> throws a \<^verbatim>\<open>TypeError\<close>. The handler rethrows an API
  error and any other \<^verbatim>\<open>Error\<close>, except the \<^verbatim>\<open>AbortError\<close> of the timeout.
\<close>

definition unwrap :: "json \<Rightarrow> client_error + json" where
  "unwrap data =
     (if data = JUndefined \<or> data = JNull then Inl (Rethrown (js ''TypeError''))
      else if \<not> truthy (property data (js ''ok''))
      then Inl (TelegramAPIError (property data (js ''error_code''))
                  (property data (js ''description'')))
      else Inr (property data (js ''result'')))"

definition request_result :: "TelegramConfig \<Rightarrow> fetch_outcome \<Rightarrow> client_error + json" where
  "request_result c outcome =
     (case outcome of
        Responded data \<Rightarrow> unwrap data
      | Rejected (ErrorNamed n) \<Rightarrow>
          if n = js ''AbortError'' then Inl (RequestTimeout (timeout c)) else Inl (Rethrown n)
      | Rejected NotAnError \<Rightarrow> Inl UnknownError)"

text \<open>
  \<^verbatim>\<open>request\<close>: the request that is sent, and what the call comes to for the outcome
  of the transport.
\<close>

definition request ::
  "TelegramConfig \<Rightarrow> jsstring \<Rightarrow> params option \<Rightarrow> bool \<Rightarrow> fetch_outcome \<Rightarrow>
     http_request \<times> (client_error + json)" where
  "request c method ps isMultipart outcome =
     (build_request c method ps isMultipart, request_result c outcome)"

definition setWebhook ::
  "TelegramConfig \<Rightarrow> params \<Rightarrow> fetch_outcome \<Rightarrow> http_request \<times> (client_error + json)" where
  "setWebhook c ps outcome =
     (let hasFile = is_file (param_of ps (js ''certificate''))
      in request c (js ''setWebhook'') (Some ps) hasFile outcome)"

definition sendMessage ::
  "TelegramConfig \<Rightarrow> params \<Rightarrow> fetch_outcome \<Rightarrow> http_request \<times> (client_error + json)" where
  "sendMessage c ps outcome = request c (js ''sendMessage'') (Some ps) False outcome"

definition sendPhoto ::
  "TelegramConfig \<Rightarrow> params \<Rightarrow> fetch_outcome \<Rightarrow> http_request \<times> (client_error + json)" where
  "sendPhoto c ps outcome =
     (let isFile = is_file (param_of ps (js ''photo''))
      in request c (js ''sendPhoto'') (Some ps) isFile outcome)"

section \<open>Notions and examples used to state the properties\<close>

definition example_config :: TelegramConfig where
  "example_config =
     \<lparr>botToken = js ''123456789:ABCdefGHIjklMNOpqrsTUVwxyz'',
      baseUrl = js ''https://api.telegram.org'', timeout = 30000\<rparr>"

definition example_message :: params where
  "example_message =
     [(js ''chat_id'', Val (JNum 123456789)), (js ''text'', Val (JStr (js ''Hello, World!'')))]"

text \<open>The declared properties of an object schema.\<close>

fun fields_of :: "schema \<Rightarrow> (jsstring \<times> schema) list" where
  "fields_of (ZObject fs) = fs"
| "fields_of _ = []"

text \<open>
  The number of bytes of the UTF-8 encoding of a string (what \<^verbatim>\<open>TextEncoder\<close> produces):
  one byte for a code unit below \<open>0x80\<close>, two below \<open>0x800\<close>, four for a surrogate
  pair and three for any other code unit. The source has no such function; the bound of
  64 bytes on \<^verbatim>\<open>callback_data\<close> is stated with it.
\<close>

fun utf8_length :: "jsstring \<Rightarrow> nat" where
  "utf8_length [] = 0"
| "utf8_length [c] = (if c < 0x80 then 1 else if c < 0x800 then 2 else 3)"
| "utf8_length (c # d # cs) =
     (if c < 0x80 then 1 + utf8_length (d # cs)
      else if c < 0x800 then 2 + utf8_length (d # cs)
      else if 0xD800 \<le> c \<and> c \<le> 0xDBFF \<and> 0xDC00 \<le> d \<and> d \<le> 0xDFFF
      then 4 + utf8_length cs
      else 3 + utf8_length (d # cs))"

text \<open>A string of 33 code units \<open>U+00E9\<close>, two bytes each in UTF-8.\<close>

definition accented_33 :: jsstring where
  "accented_33 = replicate 33 0xE9"

text \<open>A message, and the same message replying to itself \<open>n\<close> levels deep.\<close>

definition base_message :: "(jsstring \<times> json) list" where
  "base_message =
     [(js ''message_id'', JNum 19787), (js ''date'', JNum 1762922251),
      (js ''chat'', JObj [(js ''id'', JNum 496499134), (js ''type'', JStr (js ''private''))])]"

fun reply_chain :: "nat \<Rightarrow> json" where
  "reply_chain 0 = JObj base_message"
| "reply_chain (Suc n) = JObj (base_message @ [(js ''reply_to_message'', reply_chain n)])"

text \<open>One row of one inline button.\<close>

definition example_button_rows :: json where
  "example_button_rows =
     JArr [JArr [JObj [(js ''text'', JStr (js ''Button 1'')),
                       (js ''callback_data'', JStr (js ''btn_1''))]]]"

text \<open>A URL check for the examples: the string starts with \<open>https://\<close>.\<close>

definition https_only :: "jsstring \<Rightarrow> bool" where
  "https_only s = (take 8 s = js ''https://'')"

text \<open>The form entry of one parameter, if it has one.\<close>

definition form_entry_of :: "jsstring \<times> param \<Rightarrow> (jsstring \<times> form_value) option" where
  "form_entry_of p = map_option (Pair (fst p)) (form_value_of (snd p))"

text \<open>Parameter sets: a photo upload, the same photo by URL, and a text message with a file.\<close>

definition photo_upload :: params where
  "photo_upload =
     [(js ''chat_id'', Val (JNum 123456789)),
      (js ''photo'', File 0),
      (js ''caption'', Val (JStr (js ''Uploaded photo''))),
      (js ''parse_mode'', Val JUndefined),
      (js ''reply_markup'', Val (JObj [(js ''inline_keyboard'', example_button_rows)]))]"

definition photo_by_url :: params where
  "photo_by_url =
     [(js ''chat_id'', Val (JNum 123456789)),
      (js ''photo'', Val (JStr (js ''https://example.com/image.jpg''))),
      (js ''caption'', Val (JStr (js ''Uploaded photo''))),
      (js ''parse_mode'', Val JUndefined),
      (js ''reply_markup'', Val (JObj [(js ''inline_keyboard'', example_button_rows)]))]"

definition message_with_file :: params where
  "message_with_file =
     [(js ''chat_id'', Val (JNum 123456789)),
      (js ''text'', Val (JStr (js ''Hello, World!''))),
      (js ''attachment'', Blob 0)]"

text \<open>
  A plain schema: no default, union or record in it, every object declares each of its
  keys once, and a literal is a scalar. The schemas of the webhook payloads are plain.
\<close>

function plain :: "schema \<Rightarrow> bool" where
  "plain (ZString cs) = True"
| "plain (ZNumber cs) = True"
| "plain ZBoolean = True"
| "plain (ZLiteral v) = (case v of JArr xs \<Rightarrow> False | JObj kv \<Rightarrow> False | _ \<Rightarrow> True)"
| "plain (ZEnum vs) = True"
| "plain (ZArray s) = plain s"
| "plain (ZObject fs) = (distinct (map fst fs) \<and> list_all (\<lambda>f. plain (snd f)) fs)"
| "plain (ZRecord ks vs) = False"
| "plain (ZOptional s) = plain s"
| "plain (ZDefault s d) = False"
| "plain (ZUnion ss) = False"
| "plain (ZLazy r) = True"
  by pat_completeness auto
termination
proof (relation "measure size", goal_cases)
  case 1
  then show ?case by simp
next
  case (2 s)
  then show ?case by simp
next
  case (3 fs f)
  then have "size (snd f) < Suc (size_list (size_prod (\<lambda>x. 0) size) fs)"
    by (induction fs) auto
  then show ?case by simp
next
  case (4 s)
  then show ?case by simp
qed

lemma fst_in_zip: "p \<in> set (zip xs ys) \<Longrightarrow> fst p \<in> set xs"
  by (cases p) (auto dest: set_zip_leftD)

text \<open>
  Two values have the same declared content for a schema: at every property an object
  schema declares both have the property or neither has, with values that again have the
  same declared content; arrays agree element by element; anything else is equal. The
  properties a schema does not declare are not compared, so \<open>j'\<close> may be \<open>j\<close> with
  undeclared properties added at any depth. A default, a union or a record is not
  looked into: the two values have to be equal there.
\<close>

function same_declared :: "schema \<Rightarrow> json \<Rightarrow> json \<Rightarrow> bool" where
  "same_declared (ZObject fs) j j' =
     (case (j, j') of
        (JObj kv, JObj kv') \<Rightarrow>
          list_all (\<lambda>f. has_key kv' (fst f) = has_key kv (fst f) \<and>
                        same_declared (snd f) (lookup kv (fst f)) (lookup kv' (fst f))) fs
      | _ \<Rightarrow> j' = j)"
| "same_declared (ZArray s) j j' =
     (case (j, j') of
        (JArr xs, JArr xs') \<Rightarrow>
          length xs' = length xs \<and>
          list_all (\<lambda>p. same_declared s (fst p) (snd p)) (zip xs xs')
      | _ \<Rightarrow> j' = j)"
| "same_declared (ZOptional s) j j' = same_declared s j j'"
| "same_declared (ZDefault s d) j j' = (j' = j)"
| "same_declared (ZUnion ss) j j' = (j' = j)"
| "same_declared (ZLazy r) j j' = same_declared (resolve r) j j'"
| "same_declared (ZString cs) j j' = (j' = j)"
| "same_declared (ZNumber cs) j j' = (j' = j)"
| "same_declared ZBoolean j j' = (j' = j)"
| "same_declared (ZLiteral v) j j' = (j' = j)"
| "same_declared (ZEnum vs) j j' = (j' = j)"
| "same_declared (ZRecord ks vs) j j' = (j' = j)"
  by pat_completeness auto
termination
proof (relation "measures [\<lambda>(s, j, j'). size j, \<lambda>(s, j, j'). wrappers s]", goal_cases)
  case 1
  then show ?case by simp
next
  case (2 fs j j' a b kv kv' f)
  then have "j = JObj kv" by auto
  then show ?case using size_lookup [of kv "fst f"] by simp
next
  case (3 s j j' a b xs xs' p)
  then have "j = JArr xs" and "fst p \<in> set xs"
    by (auto dest: fst_in_zip)
  then show ?case using size_element [of "fst p" xs] by (simp add: case_prod_beta)
next
  case (4 s j j')
  then show ?case by simp
next
  case (5 r j j')
  then show ?case by (simp add: wrappers_resolve)
qed

text \<open>
  A value has only declared properties: every object in it, where the schema has an
  object, has no property but those the schema declares. A default, a union or a record
  is not looked into.
\<close>

function declared_only :: "schema \<Rightarrow> json \<Rightarrow> bool" where
  "declared_only (ZObject fs) j =
     (case j of
        JObj kv \<Rightarrow>
          list_all (\<lambda>k. k \<in> set (map fst fs)) (map fst kv) \<and>
          list_all (\<lambda>f. declared_only (snd f) (lookup kv (fst f))) fs
      | _ \<Rightarrow> True)"
| "declared_only (ZArray s) j =
     (case j of JArr xs \<Rightarrow> list_all (\<lambda>x. declared_only s x) xs | _ \<Rightarrow> True)"
| "declared_only (ZOptional s) j = declared_only s j"
| "declared_only (ZDefault s d) j = True"
| "declared_only (ZUnion ss) j = True"
| "declared_only (ZLazy r) j = declared_only (resolve r) j"
| "declared_only (ZString cs) j = True"
| "declared_only (ZNumber cs) j = True"
| "declared_only ZBoolean j = True"
| "declared_only (ZLiteral v) j = True"
| "declared_only (ZEnum vs) j = True"
| "declared_only (ZRecord ks vs) j = True"
  by pat_completeness auto
termination
proof (relation "measures [\<lambda>(s, j). size j, \<lambda>(s, j). wrappers s]", goal_cases)
  case 1
  then show ?case by simp
next
  case (2 fs j kv f)
  then show ?case using size_lookup by simp
next
  case (3 s j xs x)
  then show ?case using size_element by simp
next
  case (4 s j)
  then show ?case by simp
next
  case (5 r j)
  then show ?case by (simp add: wrappers_resolve)
qed


text \<open>
  An update as the service sends it, the typed value it parses to (the declared keys in
  the order of the schemas), and the update with properties the schemas do not declare
  added to the update, to its message and to the sender.
\<close>

definition text_update :: json where
  "text_update = JObj
     [(js ''update_id'', JNum 50563505),
      (js ''message'', JObj
         [(js ''message_id'', JNum 19787),
          (js ''from'', JObj
             [(js ''id'', JNum 496499134),
              (js ''is_bot'', JBool False),
              (js ''first_name'', JStr (js ''Carmelo'')),
              (js ''username'', JStr (js ''CamposCarmelo'')),
              (js ''language_code'', JStr (js ''es''))]),
          (js ''chat'', JObj
             [(js ''id'', JNum 496499134),
              (js ''first_name'', JStr (js ''Carmelo'')),
              (js ''username'', JStr (js ''CamposCarmelo'')),
              (js ''type'', JStr (js ''private''))]),
          (js ''date'', JNum 1762922251),
          (js ''text'', JStr (js ''Este es un texto de ejemplo''))])]"

definition typed_text_update :: json where
  "typed_text_update = JObj
     [(js ''update_id'', JNum 50563505),
      (js ''message'', JObj
         [(js ''message_id'', JNum 19787),
          (js ''from'', JObj
             [(js ''id'', JNum 496499134),
              (js ''is_bot'', JBool False),
              (js ''first_name'', JStr (js ''Carmelo'')),
              (js ''username'', JStr (js ''CamposCarmelo'')),
              (js ''language_code'', JStr (js ''es''))]),
          (js ''date'', JNum 1762922251),
          (js ''chat'', JObj
             [(js ''id'', JNum 496499134),
              (js ''type'', JStr (js ''private'')),
              (js ''username'', JStr (js ''CamposCarmelo'')),
              (js ''first_name'', JStr (js ''Carmelo''))]),
          (js ''text'', JStr (js ''Este es un texto de ejemplo''))])]"

definition extended_text_update :: json where
  "extended_text_update = JObj
     [(js ''update_id'', JNum 50563505),
      (js ''poll'', JObj [(js ''id'', JStr (js ''1''))]),
      (js ''message'', JObj
         [(js ''message_id'', JNum 19787),
          (js ''from'', JObj
             [(js ''id'', JNum 496499134),
              (js ''is_bot'', JBool False),
              (js ''first_name'', JStr (js ''Carmelo'')),
              (js ''username'', JStr (js ''CamposCarmelo'')),
              (js ''language_code'', JStr (js ''es'')),
              (js ''has_main_web_app'', JBool False)]),
          (js ''chat'', JObj
             [(js ''id'', JNum 496499134),
              (js ''first_name'', JStr (js ''Carmelo'')),
              (js ''username'', JStr (js ''CamposCarmelo'')),
              (js ''type'', JStr (js ''private''))]),
          (js ''date'', JNum 1762922251),
          (js ''text'', JStr (js ''Este es un texto de ejemplo'')),
          (js ''has_media_spoiler'', JNull)])]"


subsection \<open>The data model of the specification\<close>























section \<open>Strings\<close>

lemma unat_of_char: "unat (of_char c :: 16 word) = of_char c"
proof -
  have "(of_char c :: nat) < 2 ^ 16"
    by (rule less_trans [OF nat_of_char_less_256]) simp
  then have "unat (word_of_nat (of_char c) :: 16 word) = of_char c"
    by (simp add: unat_of_nat)
  then show ?thesis by (simp only: of_nat_of_char)
qed

lemma of_char_word_eq: "((of_char c :: 16 word) = of_char d) = (c = d)"
proof
  assume "(of_char c :: 16 word) = of_char d"
  then have "unat (of_char c :: 16 word) = unat (of_char d :: 16 word)" by simp
  then have "(of_char c :: nat) = of_char d" by (simp only: unat_of_char)
  then show "c = d" by (simp only: of_char_eq_iff)
qed simp

lemma js_eq_iff [simp]: "(js a = js b) = (a = b)"
proof (induction a arbitrary: b)
  case Nil
  then show ?case by (cases b) (simp_all add: js_def)
next
  case (Cons x xs)
  have "map of_char xs = js xs" for xs by (simp add: js_def)
  then show ?case using Cons by (cases b) (simp_all add: js_def of_char_word_eq)
qed

lemma length_js [simp]: "length (js s) = length s"
  by (simp add: js_def)

lemma js_Nil_iff [simp]: "(js s = []) = (s = [])"
  by (simp add: js_def)

lemma js_append: "js (a @ b) = js a @ js b"
  by (simp add: js_def)

lemma take_js: "take n (js s) = js (take n s)"
  by (simp add: js_def take_map)

lemma drop_js: "drop n (js s) = js (drop n s)"
  by (simp add: js_def drop_map)

lemma code_points_le_length: "code_points s \<le> length s"
  by (induction s rule: code_points.induct) auto

lemma code_points_0_iff [simp]: "(code_points s = 0) = (s = [])"
  by (cases s rule: code_points.cases) auto

lemma code_points_pos: "s \<noteq> [] \<Longrightarrow> Suc 0 \<le> code_points s"
  by (cases s rule: code_points.cases) auto

lemma code_points_no_surrogate:
  "\<forall>c \<in> set s. c < 0xD800 \<Longrightarrow> code_points s = length s"
  by (induction s rule: code_points.induct) auto

lemma of_char_below_surrogates: "(of_char c :: 16 word) < 0xD800"
proof -
  have "(of_char c :: nat) < 55296"
    by (rule less_trans [OF nat_of_char_less_256]) simp
  then show ?thesis by (simp add: word_less_nat_alt unat_of_char)
qed

lemma code_points_js [simp]: "code_points (js s) = length s"
proof -
  have "\<forall>c \<in> set (js s). c < 0xD800"
    by (auto simp: js_def of_char_below_surrogates)
  then show ?thesis using code_points_no_surrogate [of "js s"] by simp
qed
section \<open>Facts about validation\<close>

lemma lookup_Nil [simp]: "lookup [] k = JUndefined"
  by (simp add: lookup_def)

lemma lookup_Cons [simp]: "lookup ((k, v) # kv) k' = (if k' = k then v else lookup kv k')"
  by (simp add: lookup_def)

lemma has_key_Nil [simp]: "has_key [] k = False"
  by (simp add: has_key_def)

lemma object_output_Nil [simp]: "object_output kv [] vs = []" "object_output kv ks [] = []"
  by (simp_all add: object_output_def)

lemma object_output_Cons [simp]:
  "object_output kv (k # ks) (v # vs) =
     (if v \<noteq> JUndefined \<or> has_key kv k then (k, v) # object_output kv ks vs
      else object_output kv ks vs)"
  by (simp add: object_output_def)

lemma has_key_Cons [simp]: "has_key ((k, v) # kv) k' = (k' = k \<or> has_key kv k')"
  by (auto simp add: has_key_def)

lemma error_eq: "(e :: error) = ZodError"
  by (cases e) simp

lemma collect_map_Inr: "collect (map Inr vs) = Inr vs"
  by (induction vs) simp_all

lemma collect_Inr_D: "collect rs = Inr vs \<Longrightarrow> rs = map Inr vs"
proof (induction rs arbitrary: vs)
  case Nil
  then show ?case by simp
next
  case (Cons r rs)
  show ?case
  proof (cases r)
    case (Inl e)
    with Cons.prems show ?thesis by simp
  next
    case (Inr v)
    with Cons.prems obtain ws where ws: "collect rs = Inr ws" and vs: "vs = v # ws"
      by (auto split: sum.splits)
    from Cons.IH [OF ws] Inr vs show ?thesis by simp
  qed
qed

lemma collect_Inr_iff: "collect rs = Inr vs \<longleftrightarrow> rs = map Inr vs"
  using collect_Inr_D collect_map_Inr by blast

lemma collect_Inl_iff: "collect rs = Inl ZodError \<longleftrightarrow> (\<exists>r \<in> set rs. isl r)"
proof (induction rs)
  case Nil
  then show ?case by simp
next
  case (Cons r rs)
  show ?case
  proof (cases r)
    case (Inl e)
    then show ?thesis by (simp add: error_eq [of e])
  next
    case (Inr v)
    then show ?thesis using Cons by (auto simp: error_eq split: sum.splits)
  qed
qed

lemma parse_object_Inl:
  assumes "(k, s) \<in> set fs" and "isl (parse U s (lookup kv k))"
  shows "parse U (ZObject fs) (JObj kv) = Inl ZodError"
proof -
  have "\<exists>r \<in> set (map (\<lambda>f. parse U (snd f) (lookup kv (fst f))) fs). isl r"
    using assms by force
  then have "collect (map (\<lambda>f. parse U (snd f) (lookup kv (fst f))) fs) = Inl ZodError"
    by (simp only: collect_Inl_iff)
  then show ?thesis by simp
qed

lemma field_fails:
  assumes "(k, s) \<in> set (fields_of S)" and "isl (parse U s (property j k))"
  shows "parse U S j = Inl ZodError"
proof -
  from assms(1) obtain fs where S: "S = ZObject fs" by (cases S) simp_all
  show ?thesis
  proof (cases j)
    case (JObj kv)
    then show ?thesis using assms S parse_object_Inl [of k s fs U kv] by simp
  qed (simp_all add: S)
qed

lemma parse_object_ok_iff:
  "\<not> isl (parse U (ZObject fs) (JObj kv)) \<longleftrightarrow>
     (\<forall>f \<in> set fs. \<not> isl (parse U (snd f) (lookup kv (fst f))))"
proof -
  let ?rs = "map (\<lambda>f. parse U (snd f) (lookup kv (fst f))) fs"
  have "isl (parse U (ZObject fs) (JObj kv)) \<longleftrightarrow> collect ?rs = Inl ZodError"
    by (cases "collect ?rs") (simp_all add: error_eq)
  also have "\<dots> \<longleftrightarrow> (\<exists>r \<in> set ?rs. isl r)" by (rule collect_Inl_iff)
  finally show ?thesis by auto
qed

lemma lookup_filter_other: "k' \<noteq> k \<Longrightarrow> lookup (filter (\<lambda>p. fst p \<noteq> k) kv) k' = lookup kv k'"
  by (induction kv) (auto simp: lookup_def)

lemma lookup_filter_same: "lookup (filter (\<lambda>p. fst p \<noteq> k) kv) k = JUndefined"
  by (induction kv) (auto simp: lookup_def)

lemma optional_field_split:
  assumes one: "\<forall>f \<in> set fs. fst f = k \<longrightarrow> snd f = ZOptional s"
    and mem: "(k, ZOptional s) \<in> set fs"
    and present: "lookup kv k \<noteq> JUndefined"
  shows "\<not> isl (parse U (ZObject fs) (JObj kv)) \<longleftrightarrow>
           \<not> isl (parse U s (lookup kv k)) \<and>
           \<not> isl (parse U (ZObject fs) (JObj (filter (\<lambda>p. fst p \<noteq> k) kv)))"
proof -
  let ?kv' = "filter (\<lambda>p. fst p \<noteq> k) kv"
  have same: "parse U (snd f) (lookup ?kv' (fst f)) = parse U (snd f) (lookup kv (fst f))"
    if "f \<in> set fs" "fst f \<noteq> k" for f
    using that by (simp add: lookup_filter_other)
  have at_k: "\<not> isl (parse U (snd f) (lookup ?kv' (fst f)))"
    and at_k': "parse U (snd f) (lookup kv (fst f)) = parse U s (lookup kv k)"
    if "f \<in> set fs" "fst f = k" for f
    using that one present by (auto simp: lookup_filter_same)
  show ?thesis
  proof
    assume ok: "\<not> isl (parse U (ZObject fs) (JObj kv))"
    then have all: "\<forall>f \<in> set fs. \<not> isl (parse U (snd f) (lookup kv (fst f)))"
      by (simp only: parse_object_ok_iff)
    have "\<not> isl (parse U s (lookup kv k))"
      using all mem at_k' [OF mem] by force
    moreover have "\<not> isl (parse U (snd f) (lookup ?kv' (fst f)))" if "f \<in> set fs" for f
      using that all same [of f] at_k [of f] by (cases "fst f = k") auto
    then have "\<not> isl (parse U (ZObject fs) (JObj ?kv'))"
      by (simp only: parse_object_ok_iff) blast
    ultimately show "\<not> isl (parse U s (lookup kv k)) \<and>
        \<not> isl (parse U (ZObject fs) (JObj ?kv'))" by blast
  next
    assume h: "\<not> isl (parse U s (lookup kv k)) \<and> \<not> isl (parse U (ZObject fs) (JObj ?kv'))"
    then have "\<not> isl (parse U (ZObject fs) (JObj ?kv'))" by blast
    then have all: "\<forall>f \<in> set fs. \<not> isl (parse U (snd f) (lookup ?kv' (fst f)))"
      by (simp only: parse_object_ok_iff)
    have "\<not> isl (parse U (snd f) (lookup kv (fst f)))" if "f \<in> set fs" for f
      using that all same [of f] at_k' [of f] h by (cases "fst f = k") auto
    then show "\<not> isl (parse U (ZObject fs) (JObj kv))"
      by (simp only: parse_object_ok_iff) blast
  qed
qed

lemma collect_map_Inr_nth:
  "collect (map f xs) = Inr vs \<longleftrightarrow>
     length vs = length xs \<and> (\<forall>i < length xs. f (xs ! i) = Inr (vs ! i))"
  unfolding collect_Inr_iff by (auto simp: list_eq_iff_nth_eq)

lemma parse_object_result:
  assumes "parse U (ZObject fs) j = Inr r"
  obtains kv vs where "j = JObj kv" and "length vs = length fs"
    and "\<forall>i < length fs. parse U (snd (fs ! i)) (lookup kv (fst (fs ! i))) = Inr (vs ! i)"
    and "r = JObj (object_output kv (map fst fs) vs)"
proof -
  from assms obtain kv where j: "j = JObj kv" by (cases j) simp_all
  from assms j obtain vs where
    c: "collect (map (\<lambda>f. parse U (snd f) (lookup kv (fst f))) fs) = Inr vs"
    and r: "r = JObj (object_output kv (map fst fs) vs)"
    by (auto split: sum.splits)
  from c have "length vs = length fs"
    and "\<forall>i < length fs. parse U (snd (fs ! i)) (lookup kv (fst (fs ! i))) = Inr (vs ! i)"
    by (simp_all add: collect_map_Inr_nth)
  with j r that show thesis by blast
qed

lemma parse_array_result:
  assumes "parse U (ZArray s) j = Inr r"
  obtains xs vs where "j = JArr xs" and "length vs = length xs"
    and "\<forall>i < length xs. parse U s (xs ! i) = Inr (vs ! i)" and "r = JArr vs"
proof -
  from assms obtain xs where j: "j = JArr xs" by (cases j) simp_all
  from assms j obtain vs where
    c: "collect (map (\<lambda>x. parse U s x) xs) = Inr vs" and r: "r = JArr vs"
    by (auto split: sum.splits)
  from c have "length vs = length xs" and "\<forall>i < length xs. parse U s (xs ! i) = Inr (vs ! i)"
    by (simp_all add: collect_map_Inr_nth)
  with j r that show thesis by blast
qed

subsection \<open>The output object\<close>


lemma map_of_filter_at:
  assumes "map_of ps key = Some v" and "distinct (map fst ps)"
  shows "map_of (filter Q ps) key = (if Q (key, v) then Some v else None)"
  using assms
proof (induction ps)
  case Nil
  then show ?case by simp
next
  case (Cons p ps)
  show ?case
  proof (cases "fst p = key")
    case True
    with Cons.prems have v: "snd p = v" and "key \<notin> fst ` set ps" by auto
    then have "map_of (filter Q ps) key = None"
      by (auto simp: map_of_eq_None_iff)
    with True v show ?thesis by (cases p) auto
  next
    case False
    with Cons show ?thesis by (cases p) auto
  qed
qed

lemma map_of_zip_at:
  assumes "distinct ks" and "length vs = length ks" and "i < length ks"
  shows "map_of (zip ks vs) (ks ! i) = Some (vs ! i)"
  using assms by (simp add: map_of_zip_nth)

lemma lookup_object_output:
  assumes "distinct ks" and "length vs = length ks" and "i < length ks"
  shows "lookup (object_output kv ks vs) (ks ! i) = vs ! i"
proof -
  have "distinct (map fst (zip ks vs))" using assms by simp
  then show ?thesis
    using map_of_zip_at [OF assms]
    by (auto simp: lookup_def object_output_def map_of_filter_at)
qed


lemma keys_object_output: "set (map fst (object_output kv ks vs)) \<subseteq> set ks"
  by (auto simp: object_output_def dest: set_zip_leftD)

subsection \<open>Plain schemas\<close>

lemma plain_resolve: "plain (resolve r)"
  by (cases r) (simp_all add: UserSchema_def MessageSchema_def ChatSchema_def
      MessageEntitySchema_def PhotoSizeSchema_def LocationSchema_def
      InlineKeyboardMarkupSchema_def InlineKeyboardButtonSchema_def)

lemma plain_UpdateSchema: "plain UpdateSchema"
  by (simp add: UpdateSchema_def CallbackQuerySchema_def UserSchema_def MessageSchema_def
      ChatSchema_def MessageEntitySchema_def PhotoSizeSchema_def LocationSchema_def
      InlineKeyboardMarkupSchema_def InlineKeyboardButtonSchema_def)



subsection \<open>Declared content\<close>

lemma same_declared_refl: "same_declared s j j"
proof (induction s j rule: declared_only.induct)
  case (1 fs j)
  then show ?case by (cases j) (simp_all add: list_all_iff)
next
  case (2 s j)
  then show ?case by (cases j) (auto simp: list_all_iff zip_same_conv_map)
qed simp_all


lemma same_declared_undefined:
  "same_declared s j j' \<Longrightarrow> (j' = JUndefined) = (j = JUndefined)"
proof (induction s j j' rule: same_declared.induct)
  case (1 fs j j')
  then show ?case by (cases j; cases j') auto
next
  case (2 s j j')
  then show ?case by (cases j; cases j') auto
qed auto

lemma same_declared_parse: "same_declared s j j' \<Longrightarrow> parse U s j' = parse U s j"
proof (induction s j j' rule: same_declared.induct)
  case (1 fs j j')
  show ?case
  proof (cases "\<exists>kv kv'. j = JObj kv \<and> j' = JObj kv'")
    case True
    then obtain kv kv' where j: "j = JObj kv" and j': "j' = JObj kv'" by blast
    from "1.prems" j j'
    have all: "\<forall>f \<in> set fs. has_key kv' (fst f) = has_key kv (fst f) \<and>
        same_declared (snd f) (lookup kv (fst f)) (lookup kv' (fst f))"
      by (simp add: list_all_iff)
    have fields: "map (\<lambda>f. parse U (snd f) (lookup kv' (fst f))) fs =
        map (\<lambda>f. parse U (snd f) (lookup kv (fst f))) fs"
      using "1.IH" j j' all by (intro map_cong) auto
    have out: "object_output kv' (map fst fs) vs = object_output kv (map fst fs) vs" for vs
      unfolding object_output_def using all
      by (intro filter_cong) (auto dest!: set_zip_leftD)
    show ?thesis by (simp add: j j' fields out split: sum.splits)
  next
    case False
    with "1.prems" have "j' = j" by (cases j; cases j') auto
    then show ?thesis by simp
  qed
next
  case (2 s j j')
  show ?case
  proof (cases "\<exists>xs xs'. j = JArr xs \<and> j' = JArr xs'")
    case True
    then obtain xs xs' where j: "j = JArr xs" and j': "j' = JArr xs'" by blast
    from "2.prems" j j'
    have len: "length xs' = length xs"
      and all: "\<forall>p \<in> set (zip xs xs'). same_declared s (fst p) (snd p)"
      by (simp_all add: list_all_iff)
    have "parse U s (xs' ! i) = parse U s (xs ! i)" if "i < length xs" for i
    proof -
      from that len have "(xs ! i, xs' ! i) \<in> set (zip xs xs')"
        by (auto simp: set_zip)
      then show ?thesis using "2.IH" [OF _ j j'] all by fastforce
    qed
    then have "map (\<lambda>x. parse U s x) xs' = map (\<lambda>x. parse U s x) xs"
      using len by (simp add: list_eq_iff_nth_eq)
    then show ?thesis by (simp add: j j')
  next
    case False
    with "2.prems" have "j' = j" by (cases j; cases j') auto
    then show ?thesis by simp
  qed
next
  case (3 s j j')
  then show ?case using same_declared_undefined [of s j j'] by simp
qed simp_all


lemma declared_only_leaf:
  "(\<forall>kv. j \<noteq> JObj kv) \<Longrightarrow> (\<forall>xs. j \<noteq> JArr xs) \<Longrightarrow> declared_only s j"
  by (induction s j rule: declared_only.induct) (auto split: json.splits)

lemma parse_declared_only:
  "plain s \<Longrightarrow> parse U s j = Inr r \<Longrightarrow> declared_only s r"
proof (induction U s j arbitrary: r rule: parse.induct)
  case (6 U s j)
  from "6.prems"(2) obtain xs vs where j: "j = JArr xs" and len: "length vs = length xs"
    and each: "\<forall>i < length xs. parse U s (xs ! i) = Inr (vs ! i)" and r: "r = JArr vs"
    by (rule parse_array_result)
  have "declared_only s v" if "v \<in> set vs" for v
  proof -
    from that len obtain i where i: "i < length xs" and v: "v = vs ! i"
      by (auto simp: in_set_conv_nth)
    from "6.prems"(1) have "plain s" by simp
    with "6.IH" [OF j, of "xs ! i" v] i each v show ?thesis by simp
  qed
  then show ?case by (simp add: r list_all_iff)
next
  case (7 U fs j)
  from "7.prems"(2) obtain kv vs where j: "j = JObj kv" and len: "length vs = length fs"
    and each: "\<forall>i < length fs. parse U (snd (fs ! i)) (lookup kv (fst (fs ! i))) = Inr (vs ! i)"
    and r: "r = JObj (object_output kv (map fst fs) vs)"
    by (rule parse_object_result)
  from "7.prems"(1) have d: "distinct (map fst fs)" and pl: "\<forall>f \<in> set fs. plain (snd f)"
    by (simp_all add: list_all_iff)
  let ?out = "object_output kv (map fst fs) vs"
  have "declared_only (snd f) (lookup ?out (fst f))" if f: "f \<in> set fs" for f
  proof -
    from f obtain i where i: "i < length fs" and fi: "f = fs ! i"
      by (auto simp: in_set_conv_nth)
    have k: "map fst fs ! i = fst f" using i fi by simp
    from each i fi have p: "parse U (snd f) (lookup kv (fst f)) = Inr (vs ! i)" by simp
    have l: "lookup ?out (fst f) = vs ! i"
      using lookup_object_output [OF d, of vs i kv] len i k by simp
    have "declared_only (snd f) (vs ! i)"
      using "7.IH" [OF j f _ p] pl f by blast
    then show ?thesis using l by simp
  qed
  moreover have "\<forall>k \<in> set (map fst ?out). k \<in> set (map fst fs)"
    using keys_object_output [of kv "map fst fs" vs] by blast
  ultimately show ?case by (simp add: r list_all_iff)
next
  case (9 U s j)
  then show ?case by (auto split: if_splits simp: declared_only_leaf)
next
  case (12 U r j)
  then show ?case using plain_resolve by simp
qed simp_all

lemma undeclared_key_same_declared:
  assumes "k \<notin> set (map fst fs)"
  shows "same_declared (ZObject fs) (JObj kv) (JObj ((k, v) # kv))"
  using assms by (auto simp: list_all_iff same_declared_refl)


subsection \<open>Equality up to the order of keys\<close>





lemma parse_object_field_result:
  assumes "parse U (ZObject fs) (JObj kv) = Inr r" and "distinct (map fst fs)"
    and "(k, s) \<in> set fs"
  shows "parse U s (lookup kv k) = Inr (property r k)"
proof -
  from assms(1) obtain kv' vs where "JObj kv = JObj kv'" and len: "length vs = length fs"
    and each: "\<forall>i < length fs. parse U (snd (fs ! i)) (lookup kv' (fst (fs ! i))) = Inr (vs ! i)"
    and r: "r = JObj (object_output kv' (map fst fs) vs)"
    by (rule parse_object_result)
  then have kv: "kv' = kv" by simp
  from assms(3) obtain i where i: "i < length fs" and fi: "fs ! i = (k, s)"
    by (auto simp: in_set_conv_nth)
  have "lookup (object_output kv (map fst fs) vs) k = vs ! i"
    using lookup_object_output [OF assms(2), of vs i kv] len i fi by simp
  moreover from each i fi have "parse U s (lookup kv k) = Inr (vs ! i)"
    unfolding kv by fastforce
  ultimately show ?thesis by (simp add: r kv)
qed
section \<open>The response envelope\<close>

text \<open>
  Claim C3. Whatever the method and its parameters, a response envelope whose \<open>ok\<close> is
  \<open>false\<close> makes the call fail with a \<open>TelegramAPIError\<close> whose \<open>errorCode\<close> is the
  envelope's \<open>error_code\<close> and whose \<open>description\<close> is the envelope's; an envelope
  whose \<open>ok\<close> is \<open>true\<close> makes the call return the envelope's \<open>result\<close>.
\<close>

theorem envelope_unwrapped:
  "(lookup kv (js ''ok'') = JBool False \<longrightarrow>
      snd (sendMessage c ps (Responded (JObj kv))) =
        Inl (TelegramAPIError (lookup kv (js ''error_code'')) (lookup kv (js ''description''))) \<and>
      snd (sendPhoto c ps (Responded (JObj kv))) =
        Inl (TelegramAPIError (lookup kv (js ''error_code'')) (lookup kv (js ''description''))) \<and>
      snd (setWebhook c ps (Responded (JObj kv))) =
        Inl (TelegramAPIError (lookup kv (js ''error_code'')) (lookup kv (js ''description'')))) \<and>
   (lookup kv (js ''ok'') = JBool True \<longrightarrow>
      snd (sendMessage c ps (Responded (JObj kv))) = Inr (lookup kv (js ''result'')) \<and>
      snd (sendPhoto c ps (Responded (JObj kv))) = Inr (lookup kv (js ''result'')) \<and>
      snd (setWebhook c ps (Responded (JObj kv))) = Inr (lookup kv (js ''result'')))"
  by (simp add: sendMessage_def sendPhoto_def setWebhook_def request_def request_result_def
      unwrap_def Let_def)

theorem envelope_unwrapped_witness:
  "snd (sendMessage example_config example_message
          (Responded (JObj [(js ''ok'', JBool False), (js ''error_code'', JNum 400),
                            (js ''description'', JStr (js ''Bad Request''))]))) =
     Inl (TelegramAPIError (JNum 400) (JStr (js ''Bad Request''))) \<and>
   snd (sendMessage example_config example_message
          (Responded (JObj [(js ''ok'', JBool True), (js ''result'', JBool True)]))) =
     Inr (JBool True)"
  using
    envelope_unwrapped [of "[(js ''ok'', JBool False), (js ''error_code'', JNum 400),
      (js ''description'', JStr (js ''Bad Request''))]" example_config example_message]
    envelope_unwrapped [of "[(js ''ok'', JBool True), (js ''result'', JBool True)]"
      example_config example_message]
  by (simp add: lookup_def)

section \<open>The masked token\<close>

lemma slice_first: "slice s 0 (Some (int n)) = take n s"
  by (simp add: slice_def slice_index_def Let_def min_def)

lemma slice_last: "0 < n \<Longrightarrow> slice s (- int n) None = drop (length s - n) s"
  by (auto simp add: slice_def slice_index_def Let_def max_def nat_diff_distrib')

lemma getBotTokenMasked_long:
  assumes "10 \<le> length (botToken c)"
  shows "getBotTokenMasked c =
           take 3 (botToken c) @ js ''...'' @ drop (length (botToken c) - 3) (botToken c)"
  using assms slice_first [where s = "botToken c" and n = 3]
    slice_last [where s = "botToken c" and n = 3]
  by (simp add: getBotTokenMasked_def Let_def)

lemma getBotTokenMasked_short:
  "length (botToken c) < 10 \<Longrightarrow> getBotTokenMasked c = js ''***''"
  by (simp add: getBotTokenMasked_def Let_def)

lemma masked_length: "10 \<le> length (botToken c) \<Longrightarrow> length (getBotTokenMasked c) = 9"
  by (simp add: getBotTokenMasked_long)

lemma masked_hides_token:
  assumes "10 \<le> length (botToken c)"
  shows "\<not> sublist (botToken c) (getBotTokenMasked c)"
proof
  assume "sublist (botToken c) (getBotTokenMasked c)"
  then have "length (botToken c) \<le> length (getBotTokenMasked c)"
    by (rule sublist_length_le)
  then show False using assms masked_length [OF assms] by simp
qed

text \<open>
  Claim C8, as the code has it. The accessor has a guard: a token shorter than 10
  characters is masked as \<open>***\<close>. A token of at least 10 characters is masked as its
  first 3 characters, \<open>...\<close> and its last 3 characters, and the result does not contain
  the token. For the token \<open>123456789:ABCdefGHIjklMNOpqrsTUVwxyz\<close> the result contains
  \<open>...\<close> and does not contain \<open>ABCdefGHIjklMNOpqrsTUVwxyz\<close>.
\<close>

theorem getBotTokenMasked_shape:
  "(length (botToken c) < 10 \<longrightarrow> getBotTokenMasked c = js ''***'') \<and>
   (10 \<le> length (botToken c) \<longrightarrow>
      getBotTokenMasked c =
        take 3 (botToken c) @ js ''...'' @ drop (length (botToken c) - 3) (botToken c) \<and>
      \<not> sublist (botToken c) (getBotTokenMasked c)) \<and>
   sublist (js ''...'') (getBotTokenMasked example_config) \<and>
   \<not> sublist (js ''ABCdefGHIjklMNOpqrsTUVwxyz'') (getBotTokenMasked example_config)"
proof -
  have len: "10 \<le> length (botToken example_config)"
    by (simp add: example_config_def)
  have m: "getBotTokenMasked example_config = js ''123'' @ js ''...'' @ js ''xyz''"
    using getBotTokenMasked_long [OF len] by (simp add: example_config_def take_js drop_js)
  have a: "sublist (js ''...'') (getBotTokenMasked example_config)"
    unfolding m by (rule sublist_appendI)
  have b: "\<not> sublist (js ''ABCdefGHIjklMNOpqrsTUVwxyz'') (getBotTokenMasked example_config)"
  proof
    assume "sublist (js ''ABCdefGHIjklMNOpqrsTUVwxyz'') (getBotTokenMasked example_config)"
    then have "length (js ''ABCdefGHIjklMNOpqrsTUVwxyz'')
        \<le> length (getBotTokenMasked example_config)"
      by (rule sublist_length_le)
    then show False using masked_length [OF len] by simp
  qed
  show ?thesis
    using getBotTokenMasked_short getBotTokenMasked_long masked_hides_token a b by blast
qed

theorem getBotTokenMasked_shape_witness:
  "10 \<le> length (botToken example_config) \<and>
   getBotTokenMasked example_config = js ''123...xyz'' \<and>
   \<not> sublist (botToken example_config) (getBotTokenMasked example_config) \<and>
   length (js ''secret'') < 10 \<and>
   getBotTokenMasked (updateBotToken example_config (js ''secret'')) = js ''***''"
proof -
  have len: "10 \<le> length (botToken example_config)"
    by (simp add: example_config_def)
  from getBotTokenMasked_shape [of example_config] len
  have "getBotTokenMasked example_config =
          take 3 (botToken example_config) @ js ''...'' @
          drop (length (botToken example_config) - 3) (botToken example_config)"
    and h: "\<not> sublist (botToken example_config) (getBotTokenMasked example_config)"
    by blast+
  then have m: "getBotTokenMasked example_config = js ''123...xyz''"
    by (simp add: example_config_def take_js drop_js js_append [symmetric])
  have "getBotTokenMasked (updateBotToken example_config (js ''secret'')) = js ''***''"
    using getBotTokenMasked_shape [of "updateBotToken example_config (js ''secret'')"]
    by (simp add: updateBotToken_def)
  with len h m show ?thesis by simp
qed

text \<open>
  A short token: \<open>secret\<close> is masked as \<open>***\<close>, not as \<open>sec...ret\<close>.
\<close>

theorem getBotTokenMasked_short_counterexample:
  "getBotTokenMasked
     \<lparr>botToken = js ''secret'', baseUrl = js ''https://api.telegram.org'', timeout = 30000\<rparr>
     \<noteq> slice (js ''secret'') 0 (Some 3) @ js ''...'' @ slice (js ''secret'') (- 3) None"
  by (simp add: getBotTokenMasked_def slice_def slice_index_def Let_def take_js drop_js
      js_append [symmetric])

section \<open>Closed enumerations\<close>

text \<open>
  Claim C9. A chat whose \<open>type\<close> is not one of \<open>private\<close>, \<open>group\<close>,
  \<open>supergroup\<close>, \<open>channel\<close> (also when it has none) is rejected by \<open>ChatSchema\<close>;
  so is a message whose \<open>chat\<close> is such a chat by \<open>MessageSchema\<close>, a message that
  replies to such a message, and an update that carries such a message in one of its
  message fields or in its callback query by \<open>UpdateSchema\<close>.
\<close>

theorem chat_type_closed:
  "property chat (js ''type'') \<notin> JStr ` set chat_types \<longrightarrow>
     parse U ChatSchema chat = Inl ZodError \<and>
     (property m (js ''chat'') = chat \<longrightarrow> parse U MessageSchema m = Inl ZodError) \<and>
     (property m (js ''chat'') = chat \<and> m \<noteq> JUndefined \<and>
      property m' (js ''reply_to_message'') = m \<longrightarrow>
        parse U MessageSchema m' = Inl ZodError) \<and>
     (property m (js ''chat'') = chat \<and> m \<noteq> JUndefined \<and>
      (property u (js ''message'') = m \<or> property u (js ''edited_message'') = m \<or>
       property u (js ''channel_post'') = m \<or> property u (js ''edited_channel_post'') = m) \<longrightarrow>
        parse U UpdateSchema u = Inl ZodError) \<and>
     (property m (js ''chat'') = chat \<and> m \<noteq> JUndefined \<and>
      property q (js ''message'') = m \<and> property u (js ''callback_query'') = q \<longrightarrow>
        parse U UpdateSchema u = Inl ZodError)"
proof (intro impI conjI)
  assume bad: "property chat (js ''type'') \<notin> JStr ` set chat_types"
  have "isl (parse U (ZEnum chat_types) (property chat (js ''type'')))"
    using bad by (cases "property chat (js ''type'')") auto
  moreover have "(js ''type'', ZEnum chat_types) \<in> set (fields_of ChatSchema)"
    by (simp add: ChatSchema_def)
  ultimately show chat: "parse U ChatSchema chat = Inl ZodError"
    by (rule field_fails [rotated])
  have message: "parse U MessageSchema m = Inl ZodError"
    if m: "property m (js ''chat'') = chat" for m
  proof -
    have "isl (parse U ChatSchema (property m (js ''chat'')))"
      using chat m by simp
    moreover have "(js ''chat'', ChatSchema) \<in> set (fields_of MessageSchema)"
      by (simp add: MessageSchema_def)
    ultimately show ?thesis by (rule field_fails [rotated])
  qed
  show "parse U MessageSchema m = Inl ZodError" if "property m (js ''chat'') = chat"
    using that by (rule message)
  show "parse U MessageSchema m' = Inl ZodError"
    if h: "property m (js ''chat'') = chat \<and> m \<noteq> JUndefined \<and>
      property m' (js ''reply_to_message'') = m"
  proof -
    from h have "isl (parse U (ZOptional (ZLazy MessageRef))
        (property m' (js ''reply_to_message'')))"
      using message [of m] by simp
    moreover have "(js ''reply_to_message'', ZOptional (ZLazy MessageRef))
        \<in> set (fields_of MessageSchema)"
      by (simp add: MessageSchema_def)
    ultimately show ?thesis by (rule field_fails [rotated])
  qed
  show "parse U UpdateSchema u = Inl ZodError"
    if h: "property m (js ''chat'') = chat \<and> m \<noteq> JUndefined \<and>
      (property u (js ''message'') = m \<or> property u (js ''edited_message'') = m \<or>
       property u (js ''channel_post'') = m \<or> property u (js ''edited_channel_post'') = m)"
  proof -
    from h have bad_m: "isl (parse U (ZOptional MessageSchema) m)"
      using message [of m] by simp
    from h obtain k where
      k: "k \<in> {js ''message'', js ''edited_message'', js ''channel_post'',
               js ''edited_channel_post''}"
      and l: "property u k = m" by auto
    from k have "(k, ZOptional MessageSchema) \<in> set (fields_of UpdateSchema)"
      by (auto simp: UpdateSchema_def)
    then show ?thesis using bad_m l by (intro field_fails [of k]) auto
  qed
  show "parse U UpdateSchema u = Inl ZodError"
    if h: "property m (js ''chat'') = chat \<and> m \<noteq> JUndefined \<and>
      property q (js ''message'') = m \<and> property u (js ''callback_query'') = q"
  proof -
    from h have "isl (parse U (ZOptional MessageSchema) (property q (js ''message'')))"
      using message [of m] by simp
    moreover have "(js ''message'', ZOptional MessageSchema)
        \<in> set (fields_of CallbackQuerySchema)"
      by (simp add: CallbackQuerySchema_def)
    ultimately have "parse U CallbackQuerySchema q = Inl ZodError"
      by (rule field_fails [rotated])
    moreover from h have "q \<noteq> JUndefined" by auto
    ultimately have "isl (parse U (ZOptional CallbackQuerySchema)
        (property u (js ''callback_query'')))"
      using h by simp
    moreover have "(js ''callback_query'', ZOptional CallbackQuerySchema)
        \<in> set (fields_of UpdateSchema)"
      by (simp add: UpdateSchema_def)
    ultimately show ?thesis by (rule field_fails [rotated])
  qed
qed

theorem chat_type_closed_witness:
  "property (JObj [(js ''id'', JNum 1), (js ''type'', JStr (js ''secret''))]) (js ''type'')
      \<notin> JStr ` set chat_types \<and>
   parse (\<lambda>s. True) ChatSchema (JObj [(js ''id'', JNum 1), (js ''type'', JStr (js ''secret''))])
     = Inl ZodError \<and>
   parse (\<lambda>s. True) MessageSchema
     (JObj [(js ''message_id'', JNum 7), (js ''date'', JNum 1762922251),
            (js ''chat'', JObj [(js ''id'', JNum 1), (js ''type'', JStr (js ''secret''))])])
     = Inl ZodError \<and>
   parse (\<lambda>s. True) UpdateSchema
     (JObj [(js ''update_id'', JNum 50563505),
            (js ''message'',
             JObj [(js ''message_id'', JNum 7), (js ''date'', JNum 1762922251),
                   (js ''chat'', JObj [(js ''id'', JNum 1), (js ''type'', JStr (js ''secret''))])])])
     = Inl ZodError"
  using chat_type_closed [where chat = "JObj [(js ''id'', JNum 1), (js ''type'', JStr (js ''secret''))]"
      and m = "JObj [(js ''message_id'', JNum 7), (js ''date'', JNum 1762922251),
            (js ''chat'', JObj [(js ''id'', JNum 1), (js ''type'', JStr (js ''secret''))])]"
      and U = "\<lambda>s. True" and m' = JUndefined and q = JUndefined
      and u = "JObj [(js ''update_id'', JNum 50563505),
            (js ''message'',
             JObj [(js ''message_id'', JNum 7), (js ''date'', JNum 1762922251),
                   (js ''chat'', JObj [(js ''id'', JNum 1), (js ''type'', JStr (js ''secret''))])])]"]
  by (simp add: lookup_def chat_types_def del: parse.simps)

section \<open>The bound on callback data\<close>

lemma length_le_utf8_length: "length s \<le> utf8_length s"
  by (induction s rule: utf8_length.induct) auto

lemma utf8_length_two_byte:
  "\<forall>c \<in> set s. \<not> c < 0x80 \<and> c < 0x800 \<Longrightarrow> utf8_length s = 2 * length s"
  by (induction s rule: utf8_length.induct) auto

lemma utf8_length_accented_33: "utf8_length accented_33 = 66"
  by (simp add: accented_33_def utf8_length_two_byte)

lemma length_accented_33: "length accented_33 = 33"
  by (simp add: accented_33_def)

lemma code_points_accented_33: "code_points accented_33 = 33"
  by (simp add: accented_33_def code_points_no_surrogate)

lemma callback_data_over_64_code_points_rejected:
  assumes "property j (js ''callback_data'') = JStr s" and "64 < code_points s"
  shows "parse U InlineKeyboardButtonSchema j = Inl ZodError"
proof -
  have "isl (parse U (ZOptional (ZString [MaxLen 64])) (property j (js ''callback_data'')))"
    using assms by simp
  moreover have "(js ''callback_data'', ZOptional (ZString [MaxLen 64]))
      \<in> set (fields_of InlineKeyboardButtonSchema)"
    by (simp add: InlineKeyboardButtonSchema_def)
  ultimately show ?thesis by (rule field_fails [rotated])
qed

lemma callback_data_within_64_bytes_passes:
  assumes "utf8_length s \<le> 64"
  shows "parse U (ZOptional (ZString [MaxLen 64])) (JStr s) = Inr (JStr s)"
  using assms length_le_utf8_length [of s] code_points_le_length [of s] by simp

text \<open>
  Claim C1. The schema bounds \<open>callback_data\<close> by \<^verbatim>\<open>.max(64)\<close>, which counts
  characters where the field's documentation says bytes. A button whose
  \<open>callback_data\<close> is 33 times \<open>U+00E9\<close>, 66 bytes in UTF-8, validates.
\<close>

theorem callback_data_66_bytes_accepted:
  "utf8_length accented_33 = 66 \<and>
   parse U InlineKeyboardButtonSchema
     (JObj [(js ''text'', JStr (js ''Go'')), (js ''callback_data'', JStr accented_33)]) =
     Inr (JObj [(js ''text'', JStr (js ''Go'')), (js ''callback_data'', JStr accented_33)])"
  by (simp add: utf8_length_accented_33 code_points_accented_33 InlineKeyboardButtonSchema_def
      lookup_def has_key_def)

section \<open>Replies\<close>

lemma reply_chain_defined: "reply_chain n \<noteq> JUndefined"
  by (cases n) simp_all

lemma parse_base_message: "parse U MessageSchema (JObj base_message) = Inr (JObj base_message)"
  by (simp add: base_message_def MessageSchema_def ChatSchema_def chat_types_def lookup_def
      has_key_def is_safe_integer_def is_integer_def)

lemma parse_reply_chain: "parse U MessageSchema (reply_chain n) = Inr (reply_chain n)"
proof (induction n)
  case 0
  then show ?case by (simp add: parse_base_message del: parse.simps)
next
  case (Suc n)
  have inner: "parse U (ZLazy MessageRef) (reply_chain n) = Inr (reply_chain n)"
    using Suc by simp
  show ?case
    using reply_chain_defined [of n]
    by (simp add: inner base_message_def MessageSchema_def ChatSchema_def chat_types_def
      lookup_def has_key_def is_safe_integer_def is_integer_def del: parse.simps(12))
qed

lemma distinct_message_fields: "distinct (map fst (fields_of MessageSchema))"
  using plain_resolve [of MessageRef] by (simp add: MessageSchema_def)

text \<open>
  Claim C5. \<open>reply_to_message\<close> is validated by the message schema itself. For a
  message that carries the field and is otherwise valid, validation succeeds exactly
  when the nested value is a valid message; a message that is invalid without the field
  stays invalid with it. On success the nested value of the result is the result of
  validating the nested value. Validation is a total function, so it ends on every
  payload, and a chain of replies of any depth \<open>n\<close> validates.
\<close>

theorem reply_to_message_recursive:
  "(lookup kv (js ''reply_to_message'') \<noteq> JUndefined \<and>
    \<not> isl (parse U MessageSchema
             (JObj (filter (\<lambda>p. fst p \<noteq> js ''reply_to_message'') kv))) \<longrightarrow>
      (\<not> isl (parse U MessageSchema (JObj kv)) \<longleftrightarrow>
       \<not> isl (parse U MessageSchema (lookup kv (js ''reply_to_message''))))) \<and>
   (lookup kv (js ''reply_to_message'') \<noteq> JUndefined \<and>
    isl (parse U MessageSchema
          (JObj (filter (\<lambda>p. fst p \<noteq> js ''reply_to_message'') kv))) \<longrightarrow>
      isl (parse U MessageSchema (JObj kv))) \<and>
   (lookup kv (js ''reply_to_message'') \<noteq> JUndefined \<and>
    parse U MessageSchema (JObj kv) = Inr r \<longrightarrow>
      parse U MessageSchema (lookup kv (js ''reply_to_message'')) =
        Inr (property r (js ''reply_to_message''))) \<and>
   parse U MessageSchema (reply_chain n) = Inr (reply_chain n)"
proof -
  have one: "\<forall>f \<in> set (fields_of MessageSchema).
      fst f = js ''reply_to_message'' \<longrightarrow> snd f = ZOptional (ZLazy MessageRef)"
    by (simp add: MessageSchema_def)
  have mem: "(js ''reply_to_message'', ZOptional (ZLazy MessageRef))
      \<in> set (fields_of MessageSchema)"
    by (simp add: MessageSchema_def)
  have obj: "MessageSchema = ZObject (fields_of MessageSchema)"
    by (simp add: MessageSchema_def)
  have split: "\<not> isl (parse U MessageSchema (JObj kv)) \<longleftrightarrow>
         \<not> isl (parse U MessageSchema (lookup kv (js ''reply_to_message''))) \<and>
         \<not> isl (parse U MessageSchema
                  (JObj (filter (\<lambda>p. fst p \<noteq> js ''reply_to_message'') kv)))"
    if present: "lookup kv (js ''reply_to_message'') \<noteq> JUndefined"
  proof -
    have "\<not> isl (parse U (ZObject (fields_of MessageSchema)) (JObj kv)) \<longleftrightarrow>
           \<not> isl (parse U (ZLazy MessageRef) (lookup kv (js ''reply_to_message''))) \<and>
           \<not> isl (parse U (ZObject (fields_of MessageSchema))
              (JObj (filter (\<lambda>p. fst p \<noteq> js ''reply_to_message'') kv)))"
      using one mem present by (rule optional_field_split)
    then show ?thesis unfolding obj [symmetric] by simp
  qed
  have nested: "parse U MessageSchema (lookup kv (js ''reply_to_message'')) =
        Inr (property r (js ''reply_to_message''))"
    if present: "lookup kv (js ''reply_to_message'') \<noteq> JUndefined"
      and p: "parse U MessageSchema (JObj kv) = Inr r"
  proof -
    from p have "parse U (ZObject (fields_of MessageSchema)) (JObj kv) = Inr r"
      unfolding obj [symmetric] .
    then have "parse U (ZOptional (ZLazy MessageRef)) (lookup kv (js ''reply_to_message'')) =
        Inr (property r (js ''reply_to_message''))"
      using distinct_message_fields mem by (rule parse_object_field_result)
    with present show ?thesis by simp
  qed
  from split nested parse_reply_chain [of U n] show ?thesis by blast
qed

theorem reply_to_message_recursive_witness:
  "lookup (base_message @ [(js ''reply_to_message'', JObj base_message)]) (js ''reply_to_message'')
     \<noteq> JUndefined \<and>
   \<not> isl (parse (\<lambda>s. True) MessageSchema (JObj base_message)) \<and>
   parse (\<lambda>s. True) MessageSchema
     (JObj (base_message @ [(js ''reply_to_message'', JObj base_message)])) =
     Inr (reply_chain 1) \<and>
   parse (\<lambda>s. True) MessageSchema (JObj base_message) =
     Inr (property (reply_chain 1) (js ''reply_to_message'')) \<and>
   lookup (base_message @ [(js ''reply_to_message'', JObj [(js ''message_id'', JNum 1)])])
     (js ''reply_to_message'') \<noteq> JUndefined \<and>
   isl (parse (\<lambda>s. True) MessageSchema
     (JObj (base_message @ [(js ''reply_to_message'', JObj [(js ''message_id'', JNum 1)])]))) \<and>
   lookup [(js ''reply_to_message'', JObj base_message)] (js ''reply_to_message'') \<noteq> JUndefined \<and>
   isl (parse (\<lambda>s. True) MessageSchema (JObj [])) \<and>
   isl (parse (\<lambda>s. True) MessageSchema (JObj [(js ''reply_to_message'', JObj base_message)]))"
proof -
  have f: "filter (\<lambda>p. fst p \<noteq> js ''reply_to_message'') (base_message @ [(js ''reply_to_message'', x)])
      = base_message" for x
    by (simp add: base_message_def)
  have l: "lookup (base_message @ [(js ''reply_to_message'', x)]) (js ''reply_to_message'') = x" for x
    by (simp add: base_message_def lookup_def)
  have f0: "filter (\<lambda>p. fst p \<noteq> js ''reply_to_message'') [(js ''reply_to_message'', x)] = []" for x
    by simp
  have l0: "lookup [(js ''reply_to_message'', x)] (js ''reply_to_message'') = x" for x
    by (simp add: lookup_def)
  have bad: "isl (parse (\<lambda>s. True) MessageSchema (JObj [(js ''message_id'', JNum 1)]))"
    by (simp add: MessageSchema_def lookup_def is_safe_integer_def is_integer_def)
  have empty: "isl (parse (\<lambda>s. True) MessageSchema (JObj []))"
    by (simp add: MessageSchema_def lookup_def)
  have ok: "\<not> isl (parse (\<lambda>s. True) MessageSchema (JObj base_message))"
    by (simp add: parse_base_message del: parse.simps)
  have one: "reply_chain 1 = JObj (base_message @ [(js ''reply_to_message'', JObj base_message)])"
    unfolding One_nat_def by simp
  note a = reply_to_message_recursive [where U = "\<lambda>s. True" and n = 1
        and r = "reply_chain 1"
        and kv = "base_message @ [(js ''reply_to_message'', JObj base_message)]",
        unfolded f l]
  note b = reply_to_message_recursive [where U = "\<lambda>s. True" and n = 1
        and kv = "base_message @ [(js ''reply_to_message'', JObj [(js ''message_id'', JNum 1)])]",
        unfolded f l]
  note c = reply_to_message_recursive [where U = "\<lambda>s. True" and n = 1
        and kv = "[(js ''reply_to_message'', JObj base_message)]", unfolded f0 l0]
  from a have chain: "parse (\<lambda>s. True) MessageSchema (reply_chain 1) = Inr (reply_chain 1)"
    by blast
  then have whole: "parse (\<lambda>s. True) MessageSchema
     (JObj (base_message @ [(js ''reply_to_message'', JObj base_message)])) = Inr (reply_chain 1)"
    unfolding one .
  with a have nested: "parse (\<lambda>s. True) MessageSchema (JObj base_message) =
     Inr (property (reply_chain 1) (js ''reply_to_message''))"
    by blast
  from b ok bad have nested_bad: "isl (parse (\<lambda>s. True) MessageSchema
     (JObj (base_message @ [(js ''reply_to_message'', JObj [(js ''message_id'', JNum 1)])])))"
    by blast
  from c empty have rest_bad:
    "isl (parse (\<lambda>s. True) MessageSchema (JObj [(js ''reply_to_message'', JObj base_message)]))"
    by blast
  have d1: "JObj base_message \<noteq> JUndefined" and d2: "JObj [(js ''message_id'', JNum 1)] \<noteq> JUndefined"
    by simp_all
  show ?thesis
    unfolding l l0
    using d1 d2 ok whole nested nested_bad rest_bad empty by blast
qed
section \<open>Reply markup\<close>

lemma parse_inline_keyboard_shape:
  assumes "parse U InlineKeyboardMarkupSchema j = Inr r"
  obtains rows where "r = JObj [(js ''inline_keyboard'', JArr rows)]"
proof -
  from assms obtain kv where j: "j = JObj kv"
    by (cases j) (simp_all add: InlineKeyboardMarkupSchema_def)
  from assms j obtain xs where xs: "lookup kv (js ''inline_keyboard'') = JArr xs"
    by (cases "lookup kv (js ''inline_keyboard'')")
       (simp_all add: InlineKeyboardMarkupSchema_def)
  from assms j xs that show thesis
    by (auto simp add: InlineKeyboardMarkupSchema_def split: sum.splits)
qed

lemma parse_example_button_rows:
  "parse U (ZArray (ZArray InlineKeyboardButtonSchema)) example_button_rows =
     Inr example_button_rows"
  by (simp add: example_button_rows_def InlineKeyboardButtonSchema_def lookup_def has_key_def)

lemma example_button_rows_defined: "example_button_rows \<noteq> JUndefined"
  by (simp add: example_button_rows_def)

lemma parse_example_inline:
  "parse U InlineKeyboardMarkupSchema (JObj [(js ''inline_keyboard'', example_button_rows)]) =
     Inr (JObj [(js ''inline_keyboard'', example_button_rows)])"
  using example_button_rows_defined
  by (simp add: InlineKeyboardMarkupSchema_def parse_example_button_rows lookup_def has_key_def
      del: parse.simps(6))

text \<open>
  Claim C6, as the code has it. \<open>ReplyMarkupSchema\<close> tries the inline keyboard, the
  reply keyboard, the removal and the forced reply in this order and returns the result
  of the first that validates. A payload that validates as an inline keyboard parses as
  one, and the result is rejected by the other three schemas. A payload with
  \<open>remove_keyboard: true\<close>, whose \<open>selective\<close> is absent or a boolean and which the
  two earlier schemas reject, parses as a \<open>ReplyKeyboardRemove\<close>.
\<close>

theorem reply_markup_first_match:
  "parse U ReplyMarkupSchema j =
     (case parse U InlineKeyboardMarkupSchema j of
        Inr r \<Rightarrow> Inr r
      | Inl e \<Rightarrow>
          (case parse U ReplyKeyboardMarkupSchema j of
             Inr r \<Rightarrow> Inr r
           | Inl e \<Rightarrow>
               (case parse U ReplyKeyboardRemoveSchema j of
                  Inr r \<Rightarrow> Inr r
                | Inl e \<Rightarrow>
                    (case parse U ForceReplySchema j of
                       Inr r \<Rightarrow> Inr r
                     | Inl e \<Rightarrow> Inl ZodError)))) \<and>
   (parse U InlineKeyboardMarkupSchema j = Inr r \<longrightarrow>
      parse U ReplyMarkupSchema j = Inr r \<and>
      parse U ReplyKeyboardMarkupSchema r = Inl ZodError \<and>
      parse U ReplyKeyboardRemoveSchema r = Inl ZodError \<and>
      parse U ForceReplySchema r = Inl ZodError) \<and>
   (property j (js ''remove_keyboard'') = JBool True \<and>
    (property j (js ''selective'') = JUndefined \<or> (\<exists>b. property j (js ''selective'') = JBool b)) \<and>
    isl (parse U InlineKeyboardMarkupSchema j) \<and> isl (parse U ReplyKeyboardMarkupSchema j) \<longrightarrow>
      parse U ReplyMarkupSchema j = parse U ReplyKeyboardRemoveSchema j \<and>
      \<not> isl (parse U ReplyKeyboardRemoveSchema j))"
proof (intro conjI impI)
  show order: "parse U ReplyMarkupSchema j =
     (case parse U InlineKeyboardMarkupSchema j of
        Inr r \<Rightarrow> Inr r
      | Inl e \<Rightarrow>
          (case parse U ReplyKeyboardMarkupSchema j of
             Inr r \<Rightarrow> Inr r
           | Inl e \<Rightarrow>
               (case parse U ReplyKeyboardRemoveSchema j of
                  Inr r \<Rightarrow> Inr r
                | Inl e \<Rightarrow>
                    (case parse U ForceReplySchema j of
                       Inr r \<Rightarrow> Inr r
                     | Inl e \<Rightarrow> Inl ZodError))))"
    by (simp add: ReplyMarkupSchema_def split: sum.splits del: parse.simps(7))
  {
    assume inl: "parse U InlineKeyboardMarkupSchema j = Inr r"
    then show "parse U ReplyMarkupSchema j = Inr r" by (simp add: order)
    from inl obtain rows where r: "r = JObj [(js ''inline_keyboard'', JArr rows)]"
      by (rule parse_inline_keyboard_shape)
    have "isl (parse U (ZArray (ZArray KeyboardButtonSchema)) (property r (js ''keyboard'')))"
      by (simp add: r lookup_def)
    moreover have "(js ''keyboard'', ZArray (ZArray KeyboardButtonSchema))
        \<in> set (fields_of ReplyKeyboardMarkupSchema)"
      by (simp add: ReplyKeyboardMarkupSchema_def)
    ultimately show "parse U ReplyKeyboardMarkupSchema r = Inl ZodError"
      by (rule field_fails [rotated])
    have "isl (parse U (ZLiteral (JBool True)) (property r (js ''remove_keyboard'')))"
      by (simp add: r lookup_def)
    moreover have "(js ''remove_keyboard'', ZLiteral (JBool True))
        \<in> set (fields_of ReplyKeyboardRemoveSchema)"
      by (simp add: ReplyKeyboardRemoveSchema_def)
    ultimately show "parse U ReplyKeyboardRemoveSchema r = Inl ZodError"
      by (rule field_fails [rotated])
    have "isl (parse U (ZLiteral (JBool True)) (property r (js ''force_reply'')))"
      by (simp add: r lookup_def)
    moreover have "(js ''force_reply'', ZLiteral (JBool True))
        \<in> set (fields_of ForceReplySchema)"
      by (simp add: ForceReplySchema_def)
    ultimately show "parse U ForceReplySchema r = Inl ZodError"
      by (rule field_fails [rotated])
  }
  {
    assume h: "property j (js ''remove_keyboard'') = JBool True \<and>
      (property j (js ''selective'') = JUndefined \<or> (\<exists>b. property j (js ''selective'') = JBool b)) \<and>
      isl (parse U InlineKeyboardMarkupSchema j) \<and> isl (parse U ReplyKeyboardMarkupSchema j)"
    from h obtain kv where j: "j = JObj kv" by (cases j) simp_all
    from h j show ok: "\<not> isl (parse U ReplyKeyboardRemoveSchema j)"
      by (auto simp add: ReplyKeyboardRemoveSchema_def)
    from h ok show "parse U ReplyMarkupSchema j = parse U ReplyKeyboardRemoveSchema j"
      by (auto simp add: order split: sum.splits)
  }
qed

theorem reply_markup_first_match_witness:
  "parse (\<lambda>s. True) ReplyMarkupSchema (JObj [(js ''inline_keyboard'', example_button_rows)]) =
     Inr (JObj [(js ''inline_keyboard'', example_button_rows)]) \<and>
   parse (\<lambda>s. True) ReplyKeyboardRemoveSchema
     (JObj [(js ''inline_keyboard'', example_button_rows)]) = Inl ZodError \<and>
   parse (\<lambda>s. True) ReplyMarkupSchema (JObj [(js ''remove_keyboard'', JBool True)]) =
     Inr (JObj [(js ''remove_keyboard'', JBool True)])"
proof -
  note a = reply_markup_first_match [where U = "\<lambda>s. True"
      and j = "JObj [(js ''inline_keyboard'', example_button_rows)]"
      and r = "JObj [(js ''inline_keyboard'', example_button_rows)]"]
  note b = reply_markup_first_match [where U = "\<lambda>s. True"
      and j = "JObj [(js ''remove_keyboard'', JBool True)]"
      and r = "JObj [(js ''remove_keyboard'', JBool True)]"]
  have 1: "isl (parse (\<lambda>s. True) InlineKeyboardMarkupSchema (JObj [(js ''remove_keyboard'', JBool True)]))"
    by (simp add: InlineKeyboardMarkupSchema_def lookup_def)
  have 2: "isl (parse (\<lambda>s. True) ReplyKeyboardMarkupSchema (JObj [(js ''remove_keyboard'', JBool True)]))"
    by (simp add: ReplyKeyboardMarkupSchema_def lookup_def)
  have 3: "parse (\<lambda>s. True) ReplyKeyboardRemoveSchema (JObj [(js ''remove_keyboard'', JBool True)])
      = Inr (JObj [(js ''remove_keyboard'', JBool True)])"
    by (simp add: ReplyKeyboardRemoveSchema_def lookup_def has_key_def)
  have 4: "property (JObj [(js ''remove_keyboard'', JBool True)]) (js ''remove_keyboard'') = JBool True"
    "property (JObj [(js ''remove_keyboard'', JBool True)]) (js ''selective'') = JUndefined"
    by (simp_all add: lookup_def)
  from a parse_example_inline [of "\<lambda>s. True"]
  have r1: "parse (\<lambda>s. True) ReplyMarkupSchema (JObj [(js ''inline_keyboard'', example_button_rows)]) =
     Inr (JObj [(js ''inline_keyboard'', example_button_rows)]) \<and>
   parse (\<lambda>s. True) ReplyKeyboardRemoveSchema
     (JObj [(js ''inline_keyboard'', example_button_rows)]) = Inl ZodError"
    by blast
  from b 1 2 4
  have "parse (\<lambda>s. True) ReplyMarkupSchema (JObj [(js ''remove_keyboard'', JBool True)]) =
    parse (\<lambda>s. True) ReplyKeyboardRemoveSchema (JObj [(js ''remove_keyboard'', JBool True)])"
    by blast
  with r1 3 show ?thesis by (simp del: parse.simps)
qed

text \<open>
  A payload with \<open>remove_keyboard: true\<close> that also carries a valid
  \<open>inline_keyboard\<close> parses as an inline keyboard: the first match wins.
\<close>

theorem remove_keyboard_shadowed_counterexample:
  "parse (\<lambda>s. True) ReplyMarkupSchema
     (JObj [(js ''remove_keyboard'', JBool True), (js ''inline_keyboard'', example_button_rows)]) =
     Inr (JObj [(js ''inline_keyboard'', example_button_rows)]) \<and>
   parse (\<lambda>s. True) ReplyKeyboardRemoveSchema
     (JObj [(js ''remove_keyboard'', JBool True), (js ''inline_keyboard'', example_button_rows)]) =
     Inr (JObj [(js ''remove_keyboard'', JBool True)])"
proof -
  have "parse (\<lambda>s. True) InlineKeyboardMarkupSchema
     (JObj [(js ''remove_keyboard'', JBool True), (js ''inline_keyboard'', example_button_rows)]) =
     Inr (JObj [(js ''inline_keyboard'', example_button_rows)])"
    using example_button_rows_defined
    by (simp add: InlineKeyboardMarkupSchema_def parse_example_button_rows lookup_def has_key_def
      del: parse.simps(6))
  then have "parse (\<lambda>s. True) ReplyMarkupSchema
     (JObj [(js ''remove_keyboard'', JBool True), (js ''inline_keyboard'', example_button_rows)]) =
     Inr (JObj [(js ''inline_keyboard'', example_button_rows)])"
    by (simp add: ReplyMarkupSchema_def del: parse.simps(7))
  moreover have "parse (\<lambda>s. True) ReplyKeyboardRemoveSchema
     (JObj [(js ''remove_keyboard'', JBool True), (js ''inline_keyboard'', example_button_rows)]) =
     Inr (JObj [(js ''remove_keyboard'', JBool True)])"
    by (simp add: ReplyKeyboardRemoveSchema_def lookup_def has_key_def)
  ultimately show ?thesis by blast
qed

section \<open>Construction of the client\<close>

text \<open>A validated configuration has the three properties, of the right kinds.\<close>

lemma config_shape:
  assumes "parse U TelegramConfigSchema config = Inr c"
  shows "\<exists>t b n. c = JObj [(js ''botToken'', JStr t), (js ''baseUrl'', JStr b),
                          (js ''timeout'', JNum n)]"
proof -
  from assms obtain kv where config: "config = JObj kv"
    by (cases config) (simp_all add: TelegramConfigSchema_def)
  show ?thesis
    using assms unfolding config TelegramConfigSchema_def
    by (cases "lookup kv (js ''botToken'')"; cases "lookup kv (js ''baseUrl'')";
        cases "lookup kv (js ''timeout'')") (auto split: if_splits)
qed

text \<open>
  Claim C7. A configuration with a non-empty \<open>botToken\<close> and neither \<open>baseUrl\<close> nor
  \<open>timeout\<close> constructs a client with \<open>baseUrl\<close> \<open>https://api.telegram.org\<close> and
  \<open>timeout\<close> 30000. Construction fails when \<open>botToken\<close> is empty, when a
  \<open>baseUrl\<close> is given that is not a URL, and when a \<open>timeout\<close> is given that is not
  a positive integer.
\<close>

theorem config_validated:
  "(lookup kv (js ''botToken'') = JStr t \<and> t \<noteq> [] \<and>
    lookup kv (js ''baseUrl'') = JUndefined \<and> lookup kv (js ''timeout'') = JUndefined \<longrightarrow>
      TelegramBot_new U (JObj kv) =
        Inr \<lparr>botToken = t, baseUrl = js ''https://api.telegram.org'', timeout = 30000\<rparr>) \<and>
   (lookup kv (js ''botToken'') = JStr [] \<longrightarrow> TelegramBot_new U (JObj kv) = Inl ZodError) \<and>
   (lookup kv (js ''baseUrl'') \<noteq> JUndefined \<and>
    (\<forall>b. lookup kv (js ''baseUrl'') = JStr b \<longrightarrow> \<not> U b) \<longrightarrow>
      TelegramBot_new U (JObj kv) = Inl ZodError) \<and>
   (lookup kv (js ''timeout'') \<noteq> JUndefined \<and>
    (\<forall>n. lookup kv (js ''timeout'') = JNum n \<longrightarrow> \<not> (is_integer n \<and> 0 < n)) \<longrightarrow>
      TelegramBot_new U (JObj kv) = Inl ZodError)"
proof (intro conjI impI)
  assume "lookup kv (js ''botToken'') = JStr t \<and> t \<noteq> [] \<and>
    lookup kv (js ''baseUrl'') = JUndefined \<and> lookup kv (js ''timeout'') = JUndefined"
  then show "TelegramBot_new U (JObj kv) =
        Inr \<lparr>botToken = t, baseUrl = js ''https://api.telegram.org'', timeout = 30000\<rparr>"
    using code_points_pos [of t] by (simp add: TelegramBot_new_def TelegramConfigSchema_def)
next
  assume "lookup kv (js ''botToken'') = JStr []"
  then show "TelegramBot_new U (JObj kv) = Inl ZodError"
    by (simp add: TelegramBot_new_def TelegramConfigSchema_def)
next
  assume h: "lookup kv (js ''baseUrl'') \<noteq> JUndefined \<and>
    (\<forall>b. lookup kv (js ''baseUrl'') = JStr b \<longrightarrow> \<not> U b)"
  then have "isl (parse U (ZDefault (ZString [UrlCheck]) (JStr (js ''https://api.telegram.org'')))
           (property (JObj kv) (js ''baseUrl'')))"
    by (cases "lookup kv (js ''baseUrl'')") auto
  moreover have "(js ''baseUrl'', ZDefault (ZString [UrlCheck]) (JStr (js ''https://api.telegram.org'')))
      \<in> set (fields_of TelegramConfigSchema)"
    by (simp add: TelegramConfigSchema_def)
  ultimately have "parse U TelegramConfigSchema (JObj kv) = Inl ZodError"
    by (rule field_fails [rotated])
  then show "TelegramBot_new U (JObj kv) = Inl ZodError"
    by (simp add: TelegramBot_new_def)
next
  assume h: "lookup kv (js ''timeout'') \<noteq> JUndefined \<and>
    (\<forall>n. lookup kv (js ''timeout'') = JNum n \<longrightarrow> \<not> (is_integer n \<and> 0 < n))"
  then have "isl (parse U (ZDefault (ZNumber [IntCheck, PositiveCheck]) (JNum 30000))
           (property (JObj kv) (js ''timeout'')))"
    by (cases "lookup kv (js ''timeout'')") (auto simp: is_safe_integer_def)
  moreover have "(js ''timeout'', ZDefault (ZNumber [IntCheck, PositiveCheck]) (JNum 30000))
      \<in> set (fields_of TelegramConfigSchema)"
    by (simp add: TelegramConfigSchema_def)
  ultimately have "parse U TelegramConfigSchema (JObj kv) = Inl ZodError"
    by (rule field_fails [rotated])
  then show "TelegramBot_new U (JObj kv) = Inl ZodError"
    by (simp add: TelegramBot_new_def)
qed

theorem config_validated_witness:
  "TelegramBot_new https_only
     (JObj [(js ''botToken'', JStr (js ''123456789:ABCdefGHIjklMNOpqrsTUVwxyz''))]) =
     Inr example_config \<and>
   TelegramBot_new https_only (JObj [(js ''botToken'', JStr [])]) = Inl ZodError \<and>
   TelegramBot_new https_only
     (JObj [(js ''botToken'', JStr (js ''123456789:ABCdefGHIjklMNOpqrsTUVwxyz'')),
            (js ''baseUrl'', JStr (js ''not a url''))]) = Inl ZodError \<and>
   TelegramBot_new https_only
     (JObj [(js ''botToken'', JStr (js ''123456789:ABCdefGHIjklMNOpqrsTUVwxyz'')),
            (js ''timeout'', JNum 0)]) = Inl ZodError"
proof -
  note a = config_validated [where U = https_only
      and t = "js ''123456789:ABCdefGHIjklMNOpqrsTUVwxyz''"
      and kv = "[(js ''botToken'', JStr (js ''123456789:ABCdefGHIjklMNOpqrsTUVwxyz''))]"]
  note b = config_validated [where U = https_only and kv = "[(js ''botToken'', JStr [])]"]
  note c = config_validated [where U = https_only
      and kv = "[(js ''botToken'', JStr (js ''123456789:ABCdefGHIjklMNOpqrsTUVwxyz'')),
            (js ''baseUrl'', JStr (js ''not a url''))]"]
  note d = config_validated [where U = https_only
      and kv = "[(js ''botToken'', JStr (js ''123456789:ABCdefGHIjklMNOpqrsTUVwxyz'')),
            (js ''timeout'', JNum 0)]"]
  have 1: "TelegramBot_new https_only
     (JObj [(js ''botToken'', JStr (js ''123456789:ABCdefGHIjklMNOpqrsTUVwxyz''))]) =
     Inr example_config"
    using a by (simp add: example_config_def)
  have 2: "TelegramBot_new https_only (JObj [(js ''botToken'', JStr [])]) = Inl ZodError"
    using b by simp
  have 3: "TelegramBot_new https_only
     (JObj [(js ''botToken'', JStr (js ''123456789:ABCdefGHIjklMNOpqrsTUVwxyz'')),
            (js ''baseUrl'', JStr (js ''not a url''))]) = Inl ZodError"
    using c by (simp add: https_only_def take_js)
  have 4: "TelegramBot_new https_only
     (JObj [(js ''botToken'', JStr (js ''123456789:ABCdefGHIjklMNOpqrsTUVwxyz'')),
            (js ''timeout'', JNum 0)]) = Inl ZodError"
    using d by simp
  from 1 2 3 4 show ?thesis by blast
qed

text \<open>
  The two defaults pass the checks of their own schemas, so a validator that validates
  a default before returning it returns the same configuration.
\<close>

lemma config_defaults_conform:
  "U (js ''https://api.telegram.org'') \<Longrightarrow>
     parse U (ZString [UrlCheck]) (JStr (js ''https://api.telegram.org'')) =
       Inr (JStr (js ''https://api.telegram.org''))"
  "parse U (ZNumber [IntCheck, PositiveCheck]) (JNum 30000) = Inr (JNum 30000)"
  by (simp_all add: is_safe_integer_def is_integer_def)

section \<open>The encoding of a request\<close>

lemma form_entries_map_filter: "form_entries ps = List.map_filter form_entry_of ps"
  by (induction ps rule: form_entries.induct)
     (simp_all add: List.map_filter_simps form_entry_of_def split: option.splits)

text \<open>
  Claim C2, as the code has it. Each method decides the encoding from one parameter:
  \<open>sendPhoto\<close> sends multipart form data exactly when \<open>photo\<close> is a \<open>Blob\<close> or a
  \<open>File\<close>, \<open>setWebhook\<close> exactly when \<open>certificate\<close> is one, and \<open>sendMessage\<close>
  never. The form has, in order, one entry for every parameter that is neither
  \<open>null\<close> nor \<open>undefined\<close>: a file as it is, an object or array serialized as JSON,
  any other value as its string. Otherwise the whole parameter set is one JSON body
  with the header \<open>Content-Type: application/json\<close>.
\<close>

theorem encoding_by_file_parameter:
  "fst (sendPhoto c ps out) =
     (if is_file (param_of ps (js ''photo''))
      then \<lparr>url = getApiUrl c (js ''sendPhoto''), http_method = js ''POST'', headers = [],
            body = FormData (form_entries ps)\<rparr>
      else \<lparr>url = getApiUrl c (js ''sendPhoto''), http_method = js ''POST'',
            headers = [(js ''Content-Type'', js ''application/json'')], body = JsonBody ps\<rparr>) \<and>
   fst (setWebhook c ps out) =
     (if is_file (param_of ps (js ''certificate''))
      then \<lparr>url = getApiUrl c (js ''setWebhook''), http_method = js ''POST'', headers = [],
            body = FormData (form_entries ps)\<rparr>
      else \<lparr>url = getApiUrl c (js ''setWebhook''), http_method = js ''POST'',
            headers = [(js ''Content-Type'', js ''application/json'')], body = JsonBody ps\<rparr>) \<and>
   fst (sendMessage c ps out) =
     \<lparr>url = getApiUrl c (js ''sendMessage''), http_method = js ''POST'',
      headers = [(js ''Content-Type'', js ''application/json'')], body = JsonBody ps\<rparr> \<and>
   form_entries ps = List.map_filter form_entry_of ps \<and>
   form_value_of (Blob b) = Some (FormFile (Blob b)) \<and>
   form_value_of (File f) = Some (FormFile (File f)) \<and>
   form_value_of (Val (JObj kv)) = Some (FormJSON (JObj kv)) \<and>
   form_value_of (Val (JArr xs)) = Some (FormJSON (JArr xs)) \<and>
   form_value_of (Val (JStr s)) = Some (FormString (JStr s)) \<and>
   form_value_of (Val (JNum n)) = Some (FormString (JNum n)) \<and>
   form_value_of (Val (JBool t)) = Some (FormString (JBool t)) \<and>
   form_value_of (Val JNull) = None \<and>
   form_value_of (Val JUndefined) = None"
  by (simp add: sendPhoto_def setWebhook_def sendMessage_def request_def build_request_def
      Let_def form_entries_map_filter)

theorem encoding_by_file_parameter_witness:
  "body (fst (sendPhoto example_config photo_upload (Rejected NotAnError))) =
     FormData
       [(js ''chat_id'', FormString (JNum 123456789)),
        (js ''photo'', FormFile (File 0)),
        (js ''caption'', FormString (JStr (js ''Uploaded photo''))),
        (js ''reply_markup'', FormJSON (JObj [(js ''inline_keyboard'', example_button_rows)]))] \<and>
   headers (fst (sendPhoto example_config photo_upload (Rejected NotAnError))) = [] \<and>
   body (fst (sendPhoto example_config photo_by_url (Rejected NotAnError))) =
     JsonBody photo_by_url \<and>
   headers (fst (sendPhoto example_config photo_by_url (Rejected NotAnError))) =
     [(js ''Content-Type'', js ''application/json'')]"
  using encoding_by_file_parameter [of example_config photo_upload "Rejected NotAnError"]
    encoding_by_file_parameter [of example_config photo_by_url "Rejected NotAnError"]
  by (simp add: photo_upload_def photo_by_url_def param_of_def)

text \<open>
  A file under another name does not change the encoding: \<open>sendMessage\<close> with a
  \<open>Blob\<close> among its parameters sends a JSON body.
\<close>

theorem file_outside_photo_counterexample:
  "is_file (param_of message_with_file (js ''attachment'')) \<and>
   body (fst (sendMessage example_config message_with_file (Rejected NotAnError))) =
     JsonBody message_with_file \<and>
   headers (fst (sendMessage example_config message_with_file (Rejected NotAnError))) =
     [(js ''Content-Type'', js ''application/json'')]"
  by (simp add: sendMessage_def request_def build_request_def message_with_file_def param_of_def)

section \<open>Round trip of an update\<close>

subsection \<open>Payloads of the data model\<close>






















































section \<open>Undeclared properties\<close>

lemma parse_text_update: "parse U UpdateSchema text_update = Inr typed_text_update"
  by (simp add: text_update_def typed_text_update_def UpdateSchema_def MessageSchema_def
      UserSchema_def ChatSchema_def chat_types_def is_safe_integer_def is_integer_def)

lemma same_declared_extended: "same_declared UpdateSchema text_update extended_text_update"
  by (simp add: text_update_def extended_text_update_def UpdateSchema_def MessageSchema_def
      UserSchema_def ChatSchema_def same_declared_refl)

text \<open>
  Claim C10. \<open>UpdateSchema\<close> ignores the properties it does not declare: two payloads
  with the same declared content, one being the other with undeclared properties added
  at any depth, have the same parse result, success or failure. The result of a
  successful parse has only declared properties, at every depth. In particular a
  property that \<open>UpdateSchema\<close>, \<open>MessageSchema\<close> or \<open>UserSchema\<close> does not declare can
  be added to a payload of that schema without changing the result.
\<close>

theorem unknown_keys_stripped:
  "(same_declared UpdateSchema j j' \<longrightarrow> parse U UpdateSchema j' = parse U UpdateSchema j) \<and>
   (parse U UpdateSchema j = Inr r \<longrightarrow> declared_only UpdateSchema r) \<and>
   (k \<notin> set (map fst (fields_of UpdateSchema)) \<longrightarrow>
      parse U UpdateSchema (JObj ((k, v) # kv)) = parse U UpdateSchema (JObj kv)) \<and>
   (k \<notin> set (map fst (fields_of MessageSchema)) \<longrightarrow>
      parse U MessageSchema (JObj ((k, v) # kv)) = parse U MessageSchema (JObj kv)) \<and>
   (k \<notin> set (map fst (fields_of UserSchema)) \<longrightarrow>
      parse U UserSchema (JObj ((k, v) # kv)) = parse U UserSchema (JObj kv))"
proof (intro conjI impI)
  show "parse U UpdateSchema j' = parse U UpdateSchema j" if "same_declared UpdateSchema j j'"
    using that by (rule same_declared_parse)
  show "declared_only UpdateSchema r" if "parse U UpdateSchema j = Inr r"
    using plain_UpdateSchema that by (rule parse_declared_only)
  have extra: "parse U S (JObj ((k, v) # kv)) = parse U S (JObj kv)"
    if "S = ZObject (fields_of S)" and "k \<notin> set (map fst (fields_of S))" for S
  proof -
    from that(2) have "same_declared (ZObject (fields_of S)) (JObj kv) (JObj ((k, v) # kv))"
      by (rule undeclared_key_same_declared)
    with that(1) have "same_declared S (JObj kv) (JObj ((k, v) # kv))" by simp
    then show ?thesis by (rule same_declared_parse)
  qed
  show "parse U UpdateSchema (JObj ((k, v) # kv)) = parse U UpdateSchema (JObj kv)"
    if "k \<notin> set (map fst (fields_of UpdateSchema))"
    using _ that by (rule extra) (simp add: UpdateSchema_def)
  show "parse U MessageSchema (JObj ((k, v) # kv)) = parse U MessageSchema (JObj kv)"
    if "k \<notin> set (map fst (fields_of MessageSchema))"
    using _ that by (rule extra) (simp add: MessageSchema_def)
  show "parse U UserSchema (JObj ((k, v) # kv)) = parse U UserSchema (JObj kv)"
    if "k \<notin> set (map fst (fields_of UserSchema))"
    using _ that by (rule extra) (simp add: UserSchema_def)
qed

theorem unknown_keys_stripped_witness:
  "same_declared UpdateSchema text_update extended_text_update \<and>
   parse https_only UpdateSchema extended_text_update = Inr typed_text_update \<and>
   declared_only UpdateSchema typed_text_update \<and>
   js ''poll'' \<notin> set (map fst (fields_of UpdateSchema)) \<and>
   js ''has_media_spoiler'' \<notin> set (map fst (fields_of MessageSchema)) \<and>
   js ''has_main_web_app'' \<notin> set (map fst (fields_of UserSchema))"
proof -
  note t = unknown_keys_stripped [where U = https_only and j = text_update
      and j' = extended_text_update and r = typed_text_update]
  have "parse https_only UpdateSchema extended_text_update = Inr typed_text_update"
    using t same_declared_extended parse_text_update [of https_only] by simp
  moreover have "declared_only UpdateSchema typed_text_update"
    using t parse_text_update [of https_only] by blast
  moreover have "js ''poll'' \<notin> set (map fst (fields_of UpdateSchema))"
    by (simp add: UpdateSchema_def)
  moreover have "js ''has_media_spoiler'' \<notin> set (map fst (fields_of MessageSchema))"
    by (simp add: MessageSchema_def)
  moreover have "js ''has_main_web_app'' \<notin> set (map fst (fields_of UserSchema))"
    by (simp add: UserSchema_def)
  ultimately show ?thesis using same_declared_extended by blast
qed


end
